theory Spec2Isabelle
  imports Complex_Main
begin

section \<open>Identity and access subsystem of the vendor marketplace backend\<close>

text \<open>
  The model follows \<^verbatim>\<open>backend/app/middleware/rate_limiting.py\<close>,
  \<^verbatim>\<open>backend/app/services/auth_service.py\<close> and
  \<^verbatim>\<open>backend/app/api/v1/endpoints/auth.py\<close>.

  Conventions:
  \<^item> Time is a whole number of seconds. One call of an operation reads the clock once
    (the argument \<open>now\<close>); the Shared Cache and the Python process share that clock.
  \<^item> Every \<^verbatim>\<open>raise\<close> is a value of type \<open>error\<close>; an operation is a function
    from the world to a result (\<open>Inl\<close> the exception, \<open>Inr\<close> the value) and the next world.
  \<^item> Every call to the Shared Cache or the Durable Store may raise: the world carries a
    schedule \<open>faults\<close>, one flag per store call still to come (\<open>True\<close>: this call raises
    and has no effect); an exhausted schedule means no further call raises.
  \<^item> Strings are byte strings; cache keys, which the source builds with f-strings, are the
    constructors of \<open>key\<close>, one per key format.
\<close>

subsection \<open>Values\<close>

text \<open>
  A bearer token as the caller presents it. \<open>Signed sub typ iat exp k\<close> is the result of
  \<^verbatim>\<open>jwt.encode({"sub","type","iat","exp"}, k, algorithm="HS256")\<close>; the MAC is symbolic:
  the token verifies under a secret exactly when it was signed with it. \<open>Unsigned s\<close> is
  any other string.
\<close>

datatype token =
    Signed (tok_sub: int) (tok_typ: string) (tok_iat: int) (tok_exp: int) (tok_key: string)
  | Unsigned string

text \<open>
  A one-way salted hash (\<^verbatim>\<open>CryptContext(schemes=["bcrypt"])\<close>), symbolic as well:
  \<^verbatim>\<open>pwd_context.verify\<close> accepts exactly the code that was hashed.
\<close>

datatype otp_hash = Bcrypt nat string

definition pwd_hash :: "nat \<Rightarrow> string \<Rightarrow> otp_hash" where
  "pwd_hash salt otp = Bcrypt salt otp"

fun pwd_verify :: "string \<Rightarrow> otp_hash \<Rightarrow> bool" where
  "pwd_verify otp (Bcrypt salt otp') = (otp = otp')"

datatype error =
    TokenInvalid            \<comment> \<open>\<^verbatim>\<open>Exception("Invalid or expired verification token")\<close>\<close>
  | RecordNotFound          \<comment> \<open>\<^verbatim>\<open>Exception("OTP verification record not found")\<close>\<close>
  | Expired                 \<comment> \<open>\<^verbatim>\<open>Exception("OTP has expired")\<close>\<close>
  | AlreadyUsed             \<comment> \<open>\<^verbatim>\<open>Exception("OTP already used")\<close>\<close>
  | AttemptsExhausted       \<comment> \<open>\<^verbatim>\<open>Exception("Maximum OTP attempts exceeded")\<close>\<close>
  | InvalidCode int         \<comment> \<open>\<^verbatim>\<open>Exception(f"Invalid OTP. {remaining_attempts} attempts remaining")\<close>\<close>
  | VendorAccountFailed     \<comment> \<open>\<^verbatim>\<open>Exception("Failed to process vendor account")\<close>\<close>
  | SessionFailed           \<comment> \<open>\<^verbatim>\<open>Exception("Failed to create session")\<close>\<close>
  | OtpStoreFailed          \<comment> \<open>\<^verbatim>\<open>Exception("Failed to generate OTP")\<close>\<close>
  | StoreError              \<comment> \<open>any exception raised by the cache or datastore client\<close>
  | JWTError                \<comment> \<open>\<^verbatim>\<open>jose.JWTError\<close> and its subclasses\<close>
  | RuntimeError            \<comment> \<open>\<^verbatim>\<open>RuntimeError("Redis not initialized. Call init_redis() first.")\<close>\<close>
  | ValueError              \<comment> \<open>\<^verbatim>\<open>int(x)\<close> on a value that is no integer\<close>
  | TypeError               \<comment> \<open>subscripting a value that is no dict\<close>
  | KeyError                \<comment> \<open>a dict without the key that is read\<close>
  | InvalidRefreshToken     \<comment> \<open>\<^verbatim>\<open>Exception("Invalid refresh token")\<close>\<close>
  | RefreshFailed           \<comment> \<open>\<^verbatim>\<open>Exception("Failed to refresh token")\<close>\<close>
  | LogoutFailed            \<comment> \<open>\<^verbatim>\<open>Exception("Failed to logout")\<close>\<close>
  | HTTPException nat string "(string \<times> string) list"

datatype key =
    OtpTokenKey string              \<comment> \<open>\<^verbatim>\<open>f"otp_token:{token}"\<close>\<close>
  | VendorSessionKey token          \<comment> \<open>\<^verbatim>\<open>f"vendor_session:{access_token}"\<close>\<close>
  | RateMinuteKey string int        \<comment> \<open>\<^verbatim>\<open>f"rate_limit:minute:{identifier}:{current_time // 60}"\<close>\<close>
  | RateHourKey string int          \<comment> \<open>\<^verbatim>\<open>f"rate_limit:hour:{identifier}:{current_time // 3600}"\<close>\<close>
  | FailedAttemptsKey string string \<comment> \<open>\<^verbatim>\<open>f"failed_attempts:{endpoint}:{identifier}"\<close>\<close>
  | LockoutKey string string        \<comment> \<open>\<^verbatim>\<open>f"lockout:{endpoint}:{identifier}"\<close>\<close>

text \<open>
  What the cache holds: a number (counters, timestamps, record ids) or the session dict
  \<^verbatim>\<open>{"vendor_id": ..., "expires_at": ...}\<close>.
\<close>

datatype cval = Num int | SessionData int int

text \<open>A cache entry is a value and, when the key has a TTL, the instant at which it expires.\<close>

type_synonym entry = "cval \<times> rat option"

record otp_row =
  otp_id :: int
  phone_or_email :: string
  otp_code :: otp_hash
  attempts :: int
  verified :: bool
  otp_expires_at :: int

record vendor_row =
  vendor_id :: int
  name :: string
  market_location :: string
  preferred_language :: string
  status :: string
  last_active :: int
  phone_number :: "string option"
  email :: "string option"

record session_row =
  session_id :: int
  session_vendor :: int
  session_token :: token
  refresh_token_of :: token
  session_expires_at :: int
  last_used :: "int option"

record world =
  redis_client :: bool                      \<comment> \<open>\<^verbatim>\<open>redis_client is not None\<close>\<close>
  cache :: "key \<rightharpoonup> entry"
  otp_verifications :: "otp_row list"
  vendors :: "vendor_row list"
  vendor_sessions :: "session_row list"
  faults :: "bool list"
  entropy :: "nat list"                     \<comment> \<open>the draws \<^verbatim>\<open>secrets\<close> will return\<close>
  jwt_secret :: string                      \<comment> \<open>\<^verbatim>\<open>settings.JWT_SECRET\<close>\<close>

subsection \<open>Operations that may raise\<close>

type_synonym 'a io = "world \<Rightarrow> (error + 'a) \<times> world"

definition io_return :: "'a \<Rightarrow> 'a io" where
  "io_return a w = (Inr a, w)"

definition io_raise :: "error \<Rightarrow> 'a io" where
  "io_raise e w = (Inl e, w)"

definition io_bind :: "'a io \<Rightarrow> ('a \<Rightarrow> 'b io) \<Rightarrow> 'b io" where
  "io_bind m f w = (case m w of (Inl e, w') \<Rightarrow> (Inl e, w') | (Inr a, w') \<Rightarrow> f a w')"

text \<open>\<^verbatim>\<open>try: m  except Exception as e: h(e)\<close>; every constructor of \<open>error\<close> is an \<^verbatim>\<open>Exception\<close>.\<close>

definition try_except :: "'a io \<Rightarrow> (error \<Rightarrow> 'a io) \<Rightarrow> 'a io" where
  "try_except m h w = (case m w of (Inl e, w') \<Rightarrow> h e w' | (Inr a, w') \<Rightarrow> (Inr a, w'))"

text \<open>One call to a store: it raises when the schedule says so, and runs otherwise.\<close>

definition store_call :: "'a io \<Rightarrow> 'a io" where
  "store_call f w =
     (case faults w of
        [] \<Rightarrow> f w
      | b # bs \<Rightarrow> if b then (Inl StoreError, w\<lparr>faults := bs\<rparr>) else f (w\<lparr>faults := bs\<rparr>))"

subsection \<open>Shared Cache\<close>

definition alive :: "int \<Rightarrow> entry \<Rightarrow> bool" where
  "alive now e = (case snd e of None \<Rightarrow> True | Some d \<Rightarrow> of_int now < d)"

definition lookup :: "(key \<rightharpoonup> entry) \<Rightarrow> key \<Rightarrow> int \<Rightarrow> cval option" where
  "lookup c k now =
     (case c k of None \<Rightarrow> None | Some e \<Rightarrow> if alive now e then Some (fst e) else None)"

definition get_redis :: "unit io" where
  "get_redis w = (if redis_client w then (Inr (), w) else (Inl RuntimeError, w))"

definition redis_get :: "key \<Rightarrow> int \<Rightarrow> cval option io" where
  "redis_get k now = store_call (\<lambda>w. (Inr (lookup (cache w) k now), w))"

definition redis_setex :: "key \<Rightarrow> rat \<Rightarrow> cval \<Rightarrow> int \<Rightarrow> unit io" where
  "redis_setex k ttl v now =
     store_call (\<lambda>w. (Inr (), w\<lparr>cache := (cache w)(k \<mapsto> (v, Some (of_int now + ttl)))\<rparr>))"

definition redis_delete :: "key \<Rightarrow> unit io" where
  "redis_delete k = store_call (\<lambda>w. (Inr (), w\<lparr>cache := (cache w)(k := None)\<rparr>))"

text \<open>\<^verbatim>\<open>INCR\<close>: a missing key counts from zero and gets no TTL; a present one keeps its TTL.\<close>

definition redis_incr :: "key \<Rightarrow> int \<Rightarrow> int io" where
  "redis_incr k now =
     store_call (\<lambda>w.
       case cache w k of
         None \<Rightarrow> (Inr 1, w\<lparr>cache := (cache w)(k \<mapsto> (Num 1, None))\<rparr>)
       | Some e \<Rightarrow>
           if \<not> alive now e then (Inr 1, w\<lparr>cache := (cache w)(k \<mapsto> (Num 1, None))\<rparr>)
           else (case fst e of
                   Num n \<Rightarrow> (Inr (n + 1), w\<lparr>cache := (cache w)(k \<mapsto> (Num (n + 1), snd e))\<rparr>)
                 | SessionData v x \<Rightarrow> (Inl StoreError, w)))"

definition redis_expire :: "key \<Rightarrow> rat \<Rightarrow> int \<Rightarrow> unit io" where
  "redis_expire k ttl now =
     store_call (\<lambda>w.
       case cache w k of
         None \<Rightarrow> (Inr (), w)
       | Some e \<Rightarrow>
           if alive now e
           then (Inr (), w\<lparr>cache := (cache w)(k \<mapsto> (fst e, Some (of_int now + ttl)))\<rparr>)
           else (Inr (), w))"

text \<open>\<^verbatim>\<open>int(x) if x else 0\<close> on what \<^verbatim>\<open>redis.get\<close> returned.\<close>

definition py_int :: "cval \<Rightarrow> int io" where
  "py_int v = (case v of Num n \<Rightarrow> io_return n | SessionData vid e \<Rightarrow> io_raise TypeError)"

definition int_or_zero :: "cval option \<Rightarrow> int io" where
  "int_or_zero x = (case x of None \<Rightarrow> io_return 0 | Some v \<Rightarrow> py_int v)"

section \<open>Brute-Force Guard (\<^verbatim>\<open>BruteForceProtection\<close>)\<close>

definition max_failed_attempts :: int where
  "max_failed_attempts = 5"

definition lockout_duration :: int where
  "lockout_duration = 15 * 60"

definition progressive_lockout :: bool where
  "progressive_lockout = True"

text \<open>
  \<^verbatim>\<open>min(self.lockout_duration * (2 ** (attempts - self.max_failed_attempts)), 3600)\<close>.
  Python's \<^verbatim>\<open>2 ** e\<close> is the float \<open>1 / 2 ^ (- e)\<close> for a negative \<open>e\<close>, which is exact
  for the exponents that occur, so the duration is a rational number.
\<close>

definition lockout_duration_for :: "int \<Rightarrow> rat" where
  "lockout_duration_for failed =
     (if progressive_lockout
      then min (of_int lockout_duration * (2 powi (failed - max_failed_attempts))) 3600
      else of_int lockout_duration)"

text \<open>
  \<^verbatim>\<open>lockout_until = int(time.time()) + lockout_duration\<close> is computed only once the
  threshold is reached, where the duration is a whole number (\<open>lockout_duration_for_whole\<close>
  below), so \<open>\<lfloor>_\<rfloor>\<close> changes nothing there.
\<close>

definition record_failed_attempt :: "string \<Rightarrow> string \<Rightarrow> int \<Rightarrow> unit io" where
  "record_failed_attempt identifier endpoint now =
     try_except
       (io_bind get_redis (\<lambda>_.
        let k = FailedAttemptsKey endpoint identifier in
        io_bind (redis_get k now) (\<lambda>stored.
        io_bind (int_or_zero stored) (\<lambda>before.
        let failed = before + 1;
            duration = lockout_duration_for failed in
        io_bind (redis_setex k duration (Num failed) now) (\<lambda>_.
        if failed \<ge> max_failed_attempts
        then let lockout_key = LockoutKey endpoint identifier;
                 lockout_until = now + \<lfloor>duration\<rfloor>
             in redis_setex lockout_key duration (Num lockout_until) now
        else io_return ())))))
       (\<lambda>e. io_return ())"

definition is_locked_out :: "string \<Rightarrow> string \<Rightarrow> int \<Rightarrow> (bool \<times> int) io" where
  "is_locked_out identifier endpoint now =
     try_except
       (io_bind get_redis (\<lambda>_.
        let lockout_key = LockoutKey endpoint identifier in
        io_bind (redis_get lockout_key now) (\<lambda>stored.
        case stored of
          None \<Rightarrow> io_return (False, 0)
        | Some v \<Rightarrow>
            io_bind (py_int v) (\<lambda>lockout_until.
            if now < lockout_until then io_return (True, lockout_until - now)
            else io_bind (redis_delete lockout_key) (\<lambda>_.
                 io_bind (redis_delete (FailedAttemptsKey endpoint identifier)) (\<lambda>_.
                 io_return (False, 0)))))))
       (\<lambda>e. io_return (False, 0))"

definition clear_failed_attempts :: "string \<Rightarrow> string \<Rightarrow> unit io" where
  "clear_failed_attempts identifier endpoint =
     try_except
       (io_bind get_redis (\<lambda>_.
        io_bind (redis_delete (FailedAttemptsKey endpoint identifier)) (\<lambda>_.
        redis_delete (LockoutKey endpoint identifier))))
       (\<lambda>e. io_return ())"

section \<open>Rate Limiter (\<^verbatim>\<open>RateLimitMiddleware\<close>)\<close>

text \<open>\<^verbatim>\<open>str(n)\<close> for an integer.\<close>

definition digit_char :: "nat \<Rightarrow> char" where
  "digit_char d = ''0123456789'' ! d"

function str_nat :: "nat \<Rightarrow> string" where
  "str_nat n = (if n < 10 then [digit_char n] else str_nat (n div 10) @ [digit_char (n mod 10)])"
  by pat_completeness auto
termination
  by (relation "measure id") auto

declare str_nat.simps [simp del]

definition str_int :: "int \<Rightarrow> string" where
  "str_int i = (if i < 0 then CHR ''-'' # str_nat (nat (- i)) else str_nat (nat i))"

record limits =
  per_minute :: int
  per_hour :: int

record rate_limit_middleware =
  calls_per_minute :: int
  calls_per_hour :: int

definition sensitive_endpoints :: "string \<rightharpoonup> limits" where
  "sensitive_endpoints =
     map_of [(''/api/v1/auth/login'', \<lparr>per_minute = 5, per_hour = 20\<rparr>),
             (''/api/v1/auth/verify-otp'', \<lparr>per_minute = 10, per_hour = 50\<rparr>),
             (''/api/v1/auth/refresh'', \<lparr>per_minute = 20, per_hour = 200\<rparr>)]"

record request =
  path :: string
  client_host :: "string option"            \<comment> \<open>\<^verbatim>\<open>request.client.host\<close>, when there is a client\<close>
  user_agent :: "string option"             \<comment> \<open>the \<^verbatim>\<open>user-agent\<close> header, when sent\<close>

record response =
  status_code :: nat
  headers :: "(string \<times> string) list"
  body :: string

text \<open>The \<^verbatim>\<open>rate_info\<close> dict has one of three shapes.\<close>

datatype rate_info =
    Exceeded (limit: int) (remaining: int) (reset: int) (window: string)
  | Within (minute_limit: int) (minute_remaining: int) (hour_limit: int) (hour_remaining: int)
  | NoInfo

text \<open>\<open>md5_hexdigest\<close> stands for \<^verbatim>\<open>hashlib.md5(s.encode()).hexdigest()\<close>.\<close>

definition get_client_identifier :: "(string \<Rightarrow> string) \<Rightarrow> request \<Rightarrow> string" where
  "get_client_identifier md5_hexdigest req =
     (let client_ip = (case client_host req of
                         Some h \<Rightarrow> if h \<noteq> [] then h else ''unknown''
                       | None \<Rightarrow> ''unknown'');
          ua = (case user_agent req of Some u \<Rightarrow> u | None \<Rightarrow> [])
      in client_ip @ '':'' @ take 8 (md5_hexdigest ua))"

definition limits_for :: "rate_limit_middleware \<Rightarrow> string \<Rightarrow> int \<times> int" where
  "limits_for self endpoint =
     (case sensitive_endpoints endpoint of
        Some l \<Rightarrow> (per_minute l, per_hour l)
      | None \<Rightarrow> (calls_per_minute self, calls_per_hour self))"

definition check_rate_limit ::
  "rate_limit_middleware \<Rightarrow> string \<Rightarrow> string \<Rightarrow> int \<Rightarrow> (bool \<times> rate_info) io" where
  "check_rate_limit self identifier endpoint current_time =
     try_except
       (io_bind get_redis (\<lambda>_.
        let (minute_lmt, hour_lmt) = limits_for self endpoint;
            minute_key = RateMinuteKey identifier (current_time div 60);
            hour_key = RateHourKey identifier (current_time div 3600) in
        io_bind (redis_get minute_key current_time) (\<lambda>m.
        io_bind (int_or_zero m) (\<lambda>minute_count.
        io_bind (redis_get hour_key current_time) (\<lambda>h.
        io_bind (int_or_zero h) (\<lambda>hour_count.
        if minute_count \<ge> minute_lmt
        then io_return (False, Exceeded minute_lmt 0 ((current_time div 60 + 1) * 60) ''minute'')
        else if hour_count \<ge> hour_lmt
        then io_return (False, Exceeded hour_lmt 0 ((current_time div 3600 + 1) * 3600) ''hour'')
        else io_return (True, Within minute_lmt (minute_lmt - minute_count - 1)
                                     hour_lmt (hour_lmt - hour_count - 1))))))))
       (\<lambda>e. io_return (True, NoInfo))"

definition increment_counters :: "string \<Rightarrow> int \<Rightarrow> unit io" where
  "increment_counters identifier current_time =
     try_except
       (io_bind get_redis (\<lambda>_.
        let minute_key = RateMinuteKey identifier (current_time div 60);
            hour_key = RateHourKey identifier (current_time div 3600) in
        io_bind (redis_incr minute_key current_time) (\<lambda>_.
        io_bind (redis_expire minute_key 60 current_time) (\<lambda>_.
        io_bind (redis_incr hour_key current_time) (\<lambda>_.
        redis_expire hour_key 3600 current_time)))))
       (\<lambda>e. io_return ())"

text \<open>\<^verbatim>\<open>response.headers[k] = v\<close>.\<close>

definition set_header :: "string \<Rightarrow> string \<Rightarrow> response \<Rightarrow> response" where
  "set_header k v r =
     r\<lparr>headers := (if k \<in> fst ` set (headers r)
                    then map (\<lambda>kv. if fst kv = k then (k, v) else kv) (headers r)
                    else headers r @ [(k, v)])\<rparr>"

definition exempt_paths :: "string list" where
  "exempt_paths = [''/'', ''/health'', ''/docs'', ''/redoc'', ''/openapi.json'']"

definition too_many_requests :: "int \<Rightarrow> int \<Rightarrow> int \<Rightarrow> error" where
  "too_many_requests lmt rst current_time =
     HTTPException 429
       (''Rate limit exceeded. Try again in '' @ str_int (rst - current_time) @ '' seconds.'')
       [(''X-RateLimit-Limit'', str_int lmt),
        (''X-RateLimit-Remaining'', ''0''),
        (''X-RateLimit-Reset'', str_int rst),
        (''Retry-After'', str_int (rst - current_time))]"

definition add_rate_headers :: "rate_info \<Rightarrow> response \<Rightarrow> response" where
  "add_rate_headers info r =
     (case info of
        Within ml mr hl hr \<Rightarrow>
          set_header ''X-RateLimit-Hour-Remaining'' (str_int hr)
            (set_header ''X-RateLimit-Hour-Limit'' (str_int hl)
              (set_header ''X-RateLimit-Minute-Remaining'' (str_int mr)
                (set_header ''X-RateLimit-Minute-Limit'' (str_int ml) r)))
      | Exceeded l rm rs wn \<Rightarrow>
          set_header ''X-RateLimit-Hour-Remaining'' []
            (set_header ''X-RateLimit-Hour-Limit'' []
              (set_header ''X-RateLimit-Minute-Remaining'' []
                (set_header ''X-RateLimit-Minute-Limit'' [] r)))
      | NoInfo \<Rightarrow> r)"

definition dispatch ::
  "rate_limit_middleware \<Rightarrow> (string \<Rightarrow> string) \<Rightarrow> request \<Rightarrow> (request \<Rightarrow> response io) \<Rightarrow> int
     \<Rightarrow> response io" where
  "dispatch self md5_hexdigest req call_next current_time =
     (if path req \<in> set exempt_paths then call_next req
      else
        let identifier = get_client_identifier md5_hexdigest req;
            endpoint = path req in
        io_bind (check_rate_limit self identifier endpoint current_time) (\<lambda>(allowed, info).
        if \<not> allowed
        then (case info of
                Exceeded lmt rm rst wn \<Rightarrow> io_raise (too_many_requests lmt rst current_time)
              | Within ml mr hl hr \<Rightarrow> io_raise KeyError
              | NoInfo \<Rightarrow> io_raise KeyError)
        else
          io_bind (increment_counters identifier current_time) (\<lambda>_.
          io_bind (call_next req) (\<lambda>resp.
          io_return (add_rate_headers info resp)))))"

text \<open>The flags of the fault schedule that a run from \<open>w\<close> to \<open>w'\<close> has used up.\<close>

definition consumed :: "world \<Rightarrow> world \<Rightarrow> bool list" where
  "consumed w w' = take (length (faults w) - length (faults w')) (faults w)"

text \<open>A run from \<open>w\<close> to \<open>w'\<close> in which no store call raised.\<close>

definition quiet :: "world \<Rightarrow> world \<Rightarrow> bool" where
  "quiet w w' = (\<exists>used. faults w = used @ faults w' \<and> True \<notin> set used)"

text \<open>An operation that returns normally only when none of its store calls raised.\<close>

definition clean :: "'a io \<Rightarrow> bool" where
  "clean m = (\<forall>w a w'. m w = (Inr a, w') \<longrightarrow> quiet w w')"

section \<open>Durable Store\<close>

text \<open>
  A table is the list of its rows. \<^verbatim>\<open>select("*").eq(...)\<close> filters, \<^verbatim>\<open>update(...).eq(...)\<close>
  maps, \<^verbatim>\<open>delete().eq(...)\<close> removes; \<^verbatim>\<open>insert\<close> appends the row under an id
  that the store assigns (the id of the row passed in is ignored) and returns it as
  \<^verbatim>\<open>result.data\<close>.
\<close>

definition fresh_id :: "int list \<Rightarrow> int" where
  "fresh_id ids = foldr max ids 0 + 1"

definition select_otp :: "(otp_row \<Rightarrow> bool) \<Rightarrow> otp_row list io" where
  "select_otp p = store_call (\<lambda>w. (Inr (filter p (otp_verifications w)), w))"

definition update_otp :: "(otp_row \<Rightarrow> bool) \<Rightarrow> (otp_row \<Rightarrow> otp_row) \<Rightarrow> unit io" where
  "update_otp p f =
     store_call (\<lambda>w. (Inr (),
       w\<lparr>otp_verifications := map (\<lambda>r. if p r then f r else r) (otp_verifications w)\<rparr>))"

definition insert_otp :: "otp_row \<Rightarrow> otp_row list io" where
  "insert_otp r =
     store_call (\<lambda>w.
       let row = r\<lparr>otp_id := fresh_id (map otp_id (otp_verifications w))\<rparr>
       in (Inr [row], w\<lparr>otp_verifications := otp_verifications w @ [row]\<rparr>))"

definition select_vendors :: "(vendor_row \<Rightarrow> bool) \<Rightarrow> vendor_row list io" where
  "select_vendors p = store_call (\<lambda>w. (Inr (filter p (vendors w)), w))"

definition update_vendors :: "(vendor_row \<Rightarrow> bool) \<Rightarrow> (vendor_row \<Rightarrow> vendor_row) \<Rightarrow> unit io" where
  "update_vendors p f =
     store_call (\<lambda>w. (Inr (), w\<lparr>vendors := map (\<lambda>r. if p r then f r else r) (vendors w)\<rparr>))"

definition insert_vendor :: "vendor_row \<Rightarrow> vendor_row list io" where
  "insert_vendor r =
     store_call (\<lambda>w.
       let row = r\<lparr>vendor_id := fresh_id (map vendor_id (vendors w))\<rparr>
       in (Inr [row], w\<lparr>vendors := vendors w @ [row]\<rparr>))"

definition select_sessions :: "(session_row \<Rightarrow> bool) \<Rightarrow> session_row list io" where
  "select_sessions p = store_call (\<lambda>w. (Inr (filter p (vendor_sessions w)), w))"

definition update_sessions ::
  "(session_row \<Rightarrow> bool) \<Rightarrow> (session_row \<Rightarrow> session_row) \<Rightarrow> unit io" where
  "update_sessions p f =
     store_call (\<lambda>w. (Inr (),
       w\<lparr>vendor_sessions := map (\<lambda>r. if p r then f r else r) (vendor_sessions w)\<rparr>))"

definition delete_sessions :: "(session_row \<Rightarrow> bool) \<Rightarrow> unit io" where
  "delete_sessions p =
     store_call (\<lambda>w. (Inr (), w\<lparr>vendor_sessions := filter (\<lambda>r. \<not> p r) (vendor_sessions w)\<rparr>))"

definition insert_session :: "session_row \<Rightarrow> session_row list io" where
  "insert_session r =
     store_call (\<lambda>w.
       let row = r\<lparr>session_id := fresh_id (map session_id (vendor_sessions w))\<rparr>
       in (Inr [row], w\<lparr>vendor_sessions := vendor_sessions w @ [row]\<rparr>))"

section \<open>OTP Authenticator and Session Manager (\<^verbatim>\<open>AuthService\<close>)\<close>

definition otp_expiry :: int where
  "otp_expiry = 5 * 60"

definition max_otp_attempts :: int where
  "max_otp_attempts = 3"

text \<open>
  \<^verbatim>\<open>re.match(r'^(\+91|91)?[6-9]\d{9}$', phone.replace(' ', '').replace('-', ''))\<close>.
  \<^verbatim>\<open>$\<close> also matches before one final newline. Digits are the ASCII digits.
\<close>

definition is_digit :: "char \<Rightarrow> bool" where
  "is_digit c = (c \<in> set ''0123456789'')"

definition phone_core :: "string \<Rightarrow> bool" where
  "phone_core s =
     (case s of [] \<Rightarrow> False
      | c # cs \<Rightarrow> c \<in> set ''6789'' \<and> length cs = 9 \<and> list_all is_digit cs)"

definition phone_body :: "string \<Rightarrow> bool" where
  "phone_body s =
     ((take 3 s = ''+91'' \<and> phone_core (drop 3 s))
      \<or> (take 2 s = ''91'' \<and> phone_core (drop 2 s))
      \<or> phone_core s)"

definition is_valid_phone :: "string \<Rightarrow> bool" where
  "is_valid_phone phone =
     (let s = filter (\<lambda>c. c \<noteq> CHR '' '' \<and> c \<noteq> CHR ''-'') phone
      in phone_body s \<or> (s \<noteq> [] \<and> last s = CHR 0x0A \<and> phone_body (butlast s)))"

text \<open>\<^verbatim>\<open>secrets.randbelow(n)\<close>: the next draw, which lies in \<open>{0..<n}\<close>.\<close>

definition randbelow :: "nat \<Rightarrow> nat io" where
  "randbelow n w =
     (case entropy w of
        [] \<Rightarrow> (Inr 0, w)
      | r # rs \<Rightarrow> (Inr (r mod n), w\<lparr>entropy := rs\<rparr>))"

text \<open>\<^verbatim>\<open>secrets.token_urlsafe(32)\<close>: the next draw, rendered as a string.\<close>

definition token_urlsafe :: "string io" where
  "token_urlsafe w =
     (case entropy w of
        [] \<Rightarrow> (Inr (str_nat 0), w)
      | r # rs \<Rightarrow> (Inr (str_nat r), w\<lparr>entropy := rs\<rparr>))"

definition settings_JWT_SECRET :: "string io" where
  "settings_JWT_SECRET w = (Inr (jwt_secret w), w)"

text \<open>
  \<^verbatim>\<open>_store_otp\<close>. The salt of the hash is a draw as well.
\<close>

definition store_otp :: "string \<Rightarrow> string \<Rightarrow> int \<Rightarrow> string io" where
  "store_otp identifier otp now =
     try_except
       (io_bind token_urlsafe (\<lambda>tok.
        io_bind (randbelow (2 ^ 128)) (\<lambda>salt.
        let hashed = pwd_hash salt otp;
            expires_at = now + otp_expiry in
        io_bind (insert_otp \<lparr>otp_id = 0, phone_or_email = identifier, otp_code = hashed,
                             attempts = 0, verified = False, otp_expires_at = expires_at\<rparr>)
          (\<lambda>data.
        case data of
          [] \<Rightarrow> io_raise OtpStoreFailed
        | row # _ \<Rightarrow>
            io_bind (redis_setex (OtpTokenKey tok) (of_int otp_expiry) (Num (otp_id row)) now)
              (\<lambda>_. io_return tok)))))
       (\<lambda>e. io_raise OtpStoreFailed)"

definition generate_jwt_tokens :: "string \<Rightarrow> int \<Rightarrow> int \<Rightarrow> token \<times> token" where
  "generate_jwt_tokens secret vid now =
     (Signed vid ''access'' now (now + 3600) secret,
      Signed vid ''refresh'' now (now + 30 * 86400) secret)"

text \<open>
  \<^verbatim>\<open>jwt.decode(token, secret, algorithms=["HS256"])\<close>: the signature must verify and
  \<^verbatim>\<open>exp\<close> must not lie in the past; the result is the payload (\<^verbatim>\<open>sub\<close>, \<^verbatim>\<open>type\<close>).
\<close>

definition jwt_decode :: "token \<Rightarrow> string \<Rightarrow> int \<Rightarrow> (int \<times> string) io" where
  "jwt_decode tok secret now =
     (case tok of
        Unsigned s \<Rightarrow> io_raise JWTError
      | Signed sb ty ia ex k \<Rightarrow>
          if k \<noteq> secret then io_raise JWTError
          else if ex < now then io_raise JWTError
          else io_return (sb, ty))"

definition create_vendor_session :: "int \<Rightarrow> token \<Rightarrow> token \<Rightarrow> int \<Rightarrow> unit io" where
  "create_vendor_session vid access refresh now =
     try_except
       (let expires_at = now + 30 * 86400 in
        io_bind (insert_session \<lparr>session_id = 0, session_vendor = vid, session_token = access,
                                 refresh_token_of = refresh, session_expires_at = expires_at,
                                 last_used = None\<rparr>) (\<lambda>data.
        case data of
          [] \<Rightarrow> io_raise SessionFailed
        | row # _ \<Rightarrow>
            redis_setex (VendorSessionKey access) (24 * 3600) (SessionData vid expires_at) now))
       (\<lambda>e. io_raise SessionFailed)"

definition get_or_create_vendor :: "string \<Rightarrow> int \<Rightarrow> vendor_row io" where
  "get_or_create_vendor identifier now =
     try_except
       (io_bind (if is_valid_phone identifier
                 then select_vendors (\<lambda>v. phone_number v = Some identifier)
                 else select_vendors (\<lambda>v. email v = Some identifier)) (\<lambda>data.
        case data of
          vendor # _ \<Rightarrow>
            io_bind (update_vendors (\<lambda>v. vendor_id v = vendor_id vendor)
                       (\<lambda>v. v\<lparr>last_active := now\<rparr>)) (\<lambda>_.
            io_return vendor)
        | [] \<Rightarrow>
            let vendor_data = \<lparr>vendor_id = 0, name = [], market_location = [],
                               preferred_language = ''hi'', status = ''active'',
                               last_active = now, phone_number = None, email = None\<rparr> in
            io_bind (if is_valid_phone identifier
                     then io_return (vendor_data\<lparr>phone_number := Some identifier\<rparr>)
                     else io_bind (randbelow 9000000000) (\<lambda>r.
                          io_return (vendor_data\<lparr>email := Some identifier,
                            phone_number := Some (''+91'' @ str_nat (r + 1000000000))\<rparr>)))
              (\<lambda>vendor_data.
            io_bind (insert_vendor vendor_data) (\<lambda>created.
            case created of
              [] \<Rightarrow> io_raise VendorAccountFailed
            | row # _ \<Rightarrow> io_return row))))
       (\<lambda>e. io_raise VendorAccountFailed)"

record auth_response =
  access_token :: token
  refresh_token :: token
  response_vendor_id :: int

text \<open>
  \<^verbatim>\<open>verify_otp\<close>. The handler \<^verbatim>\<open>except Exception as e: raise Exception(str(e))\<close>
  keeps the message, that is, the constructor of \<open>error\<close>.
\<close>

definition verify_otp :: "string \<Rightarrow> string \<Rightarrow> int \<Rightarrow> auth_response io" where
  "verify_otp tok otp now =
     try_except
       (let token_key = OtpTokenKey tok in
        io_bind (redis_get token_key now) (\<lambda>found.
        case found of
          None \<Rightarrow> io_raise TokenInvalid
        | Some otp_ident \<Rightarrow>
            io_bind (select_otp (\<lambda>r. Num (otp_id r) = otp_ident)) (\<lambda>data.
            case data of
              [] \<Rightarrow> io_raise RecordNotFound
            | otp_record # _ \<Rightarrow>
                if now > otp_expires_at otp_record then io_raise Expired
                else if verified otp_record then io_raise AlreadyUsed
                else if attempts otp_record \<ge> max_otp_attempts then io_raise AttemptsExhausted
                else if \<not> pwd_verify otp (otp_code otp_record)
                then io_bind (update_otp (\<lambda>r. Num (otp_id r) = otp_ident)
                                (\<lambda>r. r\<lparr>attempts := attempts otp_record + 1\<rparr>)) (\<lambda>_.
                     let remaining_attempts = max_otp_attempts - (attempts otp_record + 1)
                     in io_raise (InvalidCode remaining_attempts))
                else io_bind (update_otp (\<lambda>r. Num (otp_id r) = otp_ident)
                                (\<lambda>r. r\<lparr>verified := True,
                                        attempts := attempts otp_record + 1\<rparr>)) (\<lambda>_.
                     let identifier = phone_or_email otp_record in
                     io_bind (get_or_create_vendor identifier now) (\<lambda>vendor.
                     io_bind settings_JWT_SECRET (\<lambda>secret.
                     let (access, refresh) = generate_jwt_tokens secret (vendor_id vendor) now in
                     io_bind (create_vendor_session (vendor_id vendor) access refresh now) (\<lambda>_.
                     io_bind (redis_delete token_key) (\<lambda>_.
                     io_return \<lparr>access_token = access, refresh_token = refresh,
                                response_vendor_id = vendor_id vendor\<rparr>))))))))
       (\<lambda>e. io_raise e)"

definition validate_session :: "token \<Rightarrow> int \<Rightarrow> (int \<times> int) option io" where
  "validate_session access now =
     try_except
       (let session_key = VendorSessionKey access in
        io_bind (redis_get session_key now) (\<lambda>cached_session.
        io_bind (case cached_session of
                   None \<Rightarrow> io_return None
                 | Some (SessionData vid expires_at) \<Rightarrow>
                     io_return (if now \<le> expires_at then Some (vid, expires_at) else None)
                 | Some (Num n) \<Rightarrow> io_raise TypeError) (\<lambda>hit.
        case hit of
          Some session \<Rightarrow> io_return (Some session)
        | None \<Rightarrow>
            io_bind settings_JWT_SECRET (\<lambda>secret.
            io_bind (jwt_decode access secret now) (\<lambda>payload.
            if snd payload \<noteq> ''access'' then io_return None
            else
              let vid = fst payload in
              io_bind (select_sessions (\<lambda>s. session_token s = access)) (\<lambda>data.
              case data of
                [] \<Rightarrow> io_return None
              | session # _ \<Rightarrow>
                  let expires_at = session_expires_at session in
                  if now > expires_at
                  then io_bind (delete_sessions (\<lambda>s. session_id s = session_id session)) (\<lambda>_.
                       io_bind (redis_delete session_key) (\<lambda>_.
                       io_return None))
                  else io_bind (update_sessions (\<lambda>s. session_id s = session_id session)
                                  (\<lambda>s. s\<lparr>last_used := Some now\<rparr>)) (\<lambda>_.
                       io_return (Some (vid, expires_at)))))))))
       (\<lambda>e. io_return None)"


text \<open>What holds of the result and the next world whenever an operation returns normally.\<close>

definition post :: "('a \<Rightarrow> world \<Rightarrow> bool) \<Rightarrow> 'a io \<Rightarrow> bool" where
  "post Q m = (\<forall>w a w'. m w = (Inr a, w') \<longrightarrow> Q a w')"

record refresh_response =
  new_access_token :: token
  token_type :: string
  expires_in :: int

text \<open>
  \<^verbatim>\<open>refresh_token\<close>. A signed token always carries \<^verbatim>\<open>sub\<close>, so the check
  \<^verbatim>\<open>if not vendor_id\<close> never fires. \<^verbatim>\<open>except JWTError\<close> comes first; every other
  exception, the ones raised inside the block included, becomes \<open>RefreshFailed\<close>.
\<close>

definition refresh_token_op :: "token \<Rightarrow> int \<Rightarrow> refresh_response io" where
  "refresh_token_op refresh now =
     try_except
       (io_bind settings_JWT_SECRET (\<lambda>secret.
        io_bind (jwt_decode refresh secret now) (\<lambda>payload.
        if snd payload \<noteq> ''refresh'' then io_raise RefreshFailed
        else
          let vid = fst payload in
          io_bind (select_sessions (\<lambda>s. refresh_token_of s = refresh)) (\<lambda>data.
          case data of
            [] \<Rightarrow> io_raise RefreshFailed
          | session # _ \<Rightarrow>
              let expires_at = session_expires_at session in
              if now > expires_at
              then io_bind (delete_sessions (\<lambda>s. session_id s = session_id session)) (\<lambda>_.
                   io_raise RefreshFailed)
              else
                let access = fst (generate_jwt_tokens secret vid now) in
                io_bind (update_sessions (\<lambda>s. session_id s = session_id session)
                           (\<lambda>s. s\<lparr>session_token := access, last_used := Some now\<rparr>)) (\<lambda>_.
                io_bind (redis_setex (VendorSessionKey access) (24 * 3600)
                           (SessionData vid expires_at) now) (\<lambda>_.
                io_return \<lparr>new_access_token = access, token_type = ''bearer'',
                           expires_in = 3600\<rparr>))))))
       (\<lambda>e. if e = JWTError then io_raise InvalidRefreshToken else io_raise RefreshFailed)"

definition logout :: "token \<Rightarrow> string io" where
  "logout access =
     try_except
       (io_bind (delete_sessions (\<lambda>s. session_token s = access)) (\<lambda>_.
        io_bind (redis_delete (VendorSessionKey access)) (\<lambda>_.
        io_return ''Logged out successfully'')))
       (\<lambda>e. io_raise LogoutFailed)"

section \<open>Route handlers (\<^verbatim>\<open>endpoints/auth.py\<close>)\<close>





section \<open>Tokens that the server minted\<close>

definition signature_verifies :: "string \<Rightarrow> token \<Rightarrow> bool" where
  "signature_verifies secret tok =
     (case tok of Signed sb ty ia ex k \<Rightarrow> k = secret | Unsigned s \<Rightarrow> False)"

definition typ_is_access :: "token \<Rightarrow> bool" where
  "typ_is_access tok = (case tok of Signed sb ty ia ex k \<Rightarrow> ty = ''access'' | Unsigned s \<Rightarrow> False)"

text \<open>
  Every session key in the cache belongs to an access token signed with the server's
  secret. \<^verbatim>\<open>_create_vendor_session\<close> and \<^verbatim>\<open>refresh_token\<close>, the only writers of
  such keys, store them under tokens fresh from \<^verbatim>\<open>_generate_jwt_tokens\<close>.
\<close>

definition session_cache_minted :: "world \<Rightarrow> bool" where
  "session_cache_minted w =
     (\<forall>tok e. cache w (VendorSessionKey tok) = Some e \<longrightarrow>
        signature_verifies (jwt_secret w) tok \<and> typ_is_access tok)"

text \<open>
  The invariant of the session cache, with the secret fixed, and what it means for an
  operation to keep a property of the world, whether it returns or raises.
\<close>

definition minted_under :: "string \<Rightarrow> world \<Rightarrow> bool" where
  "minted_under s w = (jwt_secret w = s \<and> session_cache_minted w)"

definition is_session_key :: "key \<Rightarrow> bool" where
  "is_session_key k = (case k of VendorSessionKey tok \<Rightarrow> True | _ \<Rightarrow> False)"

definition keeps :: "(world \<Rightarrow> bool) \<Rightarrow> 'a io \<Rightarrow> bool" where
  "keeps I m = (\<forall>w r w'. I w \<and> m w = (r, w') \<longrightarrow> I w')"

text \<open>
  The worlds that the operations of this model produce from a world with an empty cache,
  the environment being free to set the fault schedule and the random draws and to
  initialise the cache client between two operations.
\<close>

inductive reachable :: "world \<Rightarrow> bool" where
  start: "cache w = Map.empty \<Longrightarrow> reachable w"
| environment: "reachable w \<Longrightarrow> reachable (w\<lparr>redis_client := b, faults := fs, entropy := es\<rparr>)"
| by_store_otp: "reachable w \<Longrightarrow> reachable (snd (store_otp ident otp now w))"
| by_verify_otp: "reachable w \<Longrightarrow> reachable (snd (verify_otp tok otp now w))"
| by_validate_session: "reachable w \<Longrightarrow> reachable (snd (validate_session access now w))"
| by_refresh_token: "reachable w \<Longrightarrow> reachable (snd (refresh_token_op refresh now w))"
| by_logout: "reachable w \<Longrightarrow> reachable (snd (logout access w))"
| by_record_failed_attempt:
    "reachable w \<Longrightarrow> reachable (snd (record_failed_attempt identifier endpoint now w))"
| by_is_locked_out: "reachable w \<Longrightarrow> reachable (snd (is_locked_out identifier endpoint now w))"
| by_clear_failed_attempts:
    "reachable w \<Longrightarrow> reachable (snd (clear_failed_attempts identifier endpoint w))"
| by_check_rate_limit:
    "reachable w \<Longrightarrow> reachable (snd (check_rate_limit self identifier endpoint now w))"
| by_increment_counters: "reachable w \<Longrightarrow> reachable (snd (increment_counters identifier now w))"

section \<open>Concrete worlds\<close>

definition world0 :: world where
  "world0 = \<lparr>redis_client = True, cache = Map.empty, otp_verifications = [], vendors = [],
     vendor_sessions = [], faults = [], entropy = [], jwt_secret = ''server-secret''\<rparr>"

text \<open>Five failures are on record for one client on the login path, stored at time 0.\<close>

definition world_five_failures :: world where
  "world_five_failures =
     world0\<lparr>cache := [FailedAttemptsKey ''/api/v1/auth/login'' ''10.0.0.7:0a1b2c3d''
                          \<mapsto> (Num 5, Some 900)]\<rparr>"

definition settings_middleware :: rate_limit_middleware where
  "settings_middleware = \<lparr>calls_per_minute = 60, calls_per_hour = 1000\<rparr>"

definition md5_of_empty :: "string \<Rightarrow> string" where
  "md5_of_empty s = ''d41d8cd98f00b204e9800998ecf8427e''"

definition ok_handler :: "request \<Rightarrow> response io" where
  "ok_handler req = io_return \<lparr>status_code = 200, headers = [], body = ''OK''\<rparr>"

definition health_request :: request where
  "health_request = \<lparr>path = ''/health'', client_host = Some ''10.0.0.7'', user_agent = None\<rparr>"

definition login_request :: request where
  "login_request = \<lparr>path = ''/api/v1/auth/login'', client_host = Some ''10.0.0.7'', user_agent = None\<rparr>"

definition world_minute_full :: world where
  "world_minute_full =
     world0\<lparr>cache := [RateMinuteKey ''10.0.0.7:d41d8cd9'' 1 \<mapsto> (Num 60, Some 120)]\<rparr>"

definition world_login_full :: world where
  "world_login_full =
     world0\<lparr>cache := [RateMinuteKey ''10.0.0.7:d41d8cd9'' 1 \<mapsto> (Num 5, Some 120),
                       RateHourKey ''10.0.0.7:d41d8cd9'' 0 \<mapsto> (Num 5, Some 3600)]\<rparr>"

text \<open>The cache is down (its next call raises) while a counter is at its limit and a lockout is active.\<close>

definition world_cache_down :: world where
  "world_cache_down =
     world0\<lparr>cache := [RateMinuteKey ''10.0.0.7:d41d8cd9'' 1 \<mapsto> (Num 5, Some 120),
                       LockoutKey ''/api/v1/auth/login'' ''10.0.0.7:d41d8cd9'' \<mapsto> (Num 1000, Some 1000)],
            faults := [True]\<rparr>"

text \<open>
  The OTP record that \<^verbatim>\<open>_store_otp\<close> creates at time 0 for the code 123456, when the
  draws for the token and the salt are 4711 and 7 (\<open>store_otp_run\<close> below).
\<close>

definition fresh_row :: otp_row where
  "fresh_row = \<lparr>otp_id = 1, phone_or_email = ''+919876543210'', otp_code = Bcrypt 7 ''123456'',
                 attempts = 0, verified = False, otp_expires_at = 300\<rparr>"

definition world_with_otp :: "otp_row \<Rightarrow> world" where
  "world_with_otp row =
     world0\<lparr>cache := [OtpTokenKey ''4711'' \<mapsto> (Num 1, Some 300)],
            otp_verifications := [row]\<rparr>"


text \<open>The world after \<open>4711\<close> and the right code were presented at time 10.\<close>

definition first_access_token :: token where
  "first_access_token = Signed 1 ''access'' 10 3610 ''server-secret''"

definition first_refresh_token :: token where
  "first_refresh_token = Signed 1 ''refresh'' 10 2592010 ''server-secret''"

definition world_after_login :: world where
  "world_after_login =
     world0\<lparr>cache := [VendorSessionKey first_access_token
                          \<mapsto> (SessionData 1 2592010, Some 86410)],
            otp_verifications := [fresh_row\<lparr>verified := True, attempts := 1\<rparr>],
            vendors := [\<lparr>vendor_id = 1, name = [], market_location = [],
                         preferred_language = ''hi'', status = ''active'', last_active = 10,
                         phone_number = Some ''+919876543210'', email = None\<rparr>],
            vendor_sessions := [\<lparr>session_id = 1, session_vendor = 1,
                                 session_token = first_access_token,
                                 refresh_token_of = first_refresh_token,
                                 session_expires_at = 2592010, last_used = None\<rparr>]\<rparr>"




text \<open>
  The world after the refresh token was presented at time 2592000, ten seconds before the
  session row expires: the row carries a new access token that outlives it.
\<close>

definition second_access_token :: token where
  "second_access_token = Signed 1 ''access'' 2592000 2595600 ''server-secret''"

definition world_refreshed :: world where
  "world_refreshed =
     world_after_login\<lparr>
       cache := (cache world_after_login)
         (VendorSessionKey second_access_token \<mapsto> (SessionData 1 2592010, Some 2678400)),
       vendor_sessions := [\<lparr>session_id = 1, session_vendor = 1,
                            session_token = second_access_token,
                            refresh_token_of = first_refresh_token,
                            session_expires_at = 2592010, last_used = Some 2592000\<rparr>]\<rparr>"



section \<open>Exceptions, store calls and the fault schedule\<close>

lemmas io_defs = io_bind_def io_return_def io_raise_def try_except_def

lemma store_call_nofault [simp]: "faults w = [] \<Longrightarrow> store_call f w = f w"
  by (simp add: store_call_def)

lemma quiet_refl [simp]: "quiet w w"
  by (simp add: quiet_def)

lemma quiet_trans: "quiet w w' \<Longrightarrow> quiet w' w'' \<Longrightarrow> quiet w w''"
  unfolding quiet_def by (metis append.assoc set_append Un_iff)

lemma quiet_consumed: "quiet w w' \<Longrightarrow> True \<notin> set (consumed w w')"
  unfolding quiet_def consumed_def by auto

lemma quiet_same_faults: "faults w' = faults w \<Longrightarrow> quiet w w'"
  by (simp add: quiet_def)

lemma clean_return [intro!, simp]: "clean (io_return a)"
  by (simp add: clean_def io_return_def)

lemma clean_raise [intro!, simp]: "clean (io_raise e)"
  by (simp add: clean_def io_raise_def)

lemma clean_bind [intro!]:
  assumes "clean m" and "\<And>a. clean (f a)"
  shows "clean (io_bind m f)"
  unfolding clean_def
proof (intro allI impI)
  fix w b w'' assume r: "io_bind m f w = (Inr b, w'')"
  obtain r1 w1 where m: "m w = (r1, w1)" by (cases "m w")
  with r obtain a where a: "r1 = Inr a" and f: "f a w1 = (Inr b, w'')"
    by (cases r1) (auto simp add: io_bind_def)
  from assms(1) m a have "quiet w w1" by (simp add: clean_def)
  moreover from assms(2) [of a] f have "quiet w1 w''" by (simp add: clean_def)
  ultimately show "quiet w w''" by (rule quiet_trans)
qed

lemma clean_store_call:
  assumes "\<And>w a w'. f w = (Inr a, w') \<Longrightarrow> faults w' = faults w"
  shows "clean (store_call f)"
  unfolding clean_def
proof (intro allI impI)
  fix w a w' assume r: "store_call f w = (Inr a, w')"
  show "quiet w w'"
  proof (cases "faults w")
    case Nil
    with r assms [of w a w'] show ?thesis by (simp add: quiet_same_faults)
  next
    case (Cons b bs)
    with r have nb: "\<not> b" and fr: "f (w\<lparr>faults := bs\<rparr>) = (Inr a, w')"
      by (auto simp add: store_call_def split: if_splits)
    from assms [OF fr] have "faults w' = bs" by simp
    with Cons nb show ?thesis
      unfolding quiet_def by (intro exI [of _ "[b]"]) simp
  qed
qed

lemma clean_get_redis [intro!, simp]: "clean get_redis"
  by (auto simp add: clean_def get_redis_def split: if_splits)

lemma clean_redis_get [intro!, simp]: "clean (redis_get k now)"
  unfolding redis_get_def by (rule clean_store_call) auto

lemma clean_redis_setex [intro!, simp]: "clean (redis_setex k ttl v now)"
  unfolding redis_setex_def by (rule clean_store_call) auto

lemma clean_redis_delete [intro!, simp]: "clean (redis_delete k)"
  unfolding redis_delete_def by (rule clean_store_call) auto

lemma clean_redis_incr [intro!, simp]: "clean (redis_incr k now)"
  unfolding redis_incr_def
  by (rule clean_store_call) (auto split: option.splits if_splits cval.splits)

lemma clean_redis_expire [intro!, simp]: "clean (redis_expire k ttl now)"
  unfolding redis_expire_def
  by (rule clean_store_call) (auto split: option.splits if_splits)

lemma clean_py_int [intro!, simp]: "clean (py_int v)"
  by (simp add: py_int_def split: cval.splits)

lemma clean_int_or_zero [intro!, simp]: "clean (int_or_zero x)"
  by (simp add: int_or_zero_def split: option.splits)

lemma clean_if [intro!]: "(c \<Longrightarrow> clean a) \<Longrightarrow> (\<not> c \<Longrightarrow> clean b) \<Longrightarrow> clean (if c then a else b)"
  by simp

lemma try_except_default_total: "fst (try_except m (\<lambda>e. io_return d) w) \<noteq> Inl x"
  by (simp add: try_except_def io_return_def split: prod.splits sum.splits)

lemma try_except_fail_open:
  assumes "clean m"
    and "True \<in> set (consumed w (snd (try_except m (\<lambda>e. io_return d) w)))"
  shows "fst (try_except m (\<lambda>e. io_return d) w) = Inr d"
proof (cases "m w")
  case (Pair r w')
  show ?thesis
  proof (cases r)
    case (Inl e)
    with Pair show ?thesis by (simp add: try_except_def io_return_def)
  next
    case (Inr a)
    with Pair assms(1) have "quiet w w'" by (simp add: clean_def)
    then have "True \<notin> set (consumed w w')" by (rule quiet_consumed)
    with assms(2) Pair Inr show ?thesis by (simp add: try_except_def)
  qed
qed

lemma try_except_no_client:
  "\<not> redis_client w \<Longrightarrow> fst (try_except (io_bind get_redis f) (\<lambda>e. io_return d) w) = Inr d"
  by (simp add: try_except_def io_bind_def get_redis_def io_return_def)

lemma io_bind_return [simp]: "io_bind (io_return a) f = f a"
  by (rule ext) (simp add: io_bind_def io_return_def)

lemma io_bind_raise [simp]: "io_bind (io_raise e) f = io_raise e"
  by (rule ext) (simp add: io_bind_def io_raise_def)

lemma get_redis_ok [simp]: "redis_client w \<Longrightarrow> io_bind get_redis f w = f () w"
  by (simp add: io_bind_def get_redis_def)

lemma redis_get_ok [simp]:
  "faults w = [] \<Longrightarrow> io_bind (redis_get k now) f w = f (lookup (cache w) k now) w"
  by (simp add: io_bind_def redis_get_def)

lemma incr_expire_then:
  assumes "faults w = []" and "int_or_zero (lookup (cache w) k t) = io_return n"
  shows "io_bind (redis_incr k t) (\<lambda>_. io_bind (redis_expire k ttl t) g) w =
         g () (w\<lparr>cache := (cache w)(k \<mapsto> (Num (n + 1), Some (of_int t + ttl)))\<rparr>)"
proof (cases "lookup (cache w) k t")
  case None
  with assms(2) have n: "n = 0"
    by (simp add: int_or_zero_def io_return_def fun_eq_iff)
  from None assms(1) show ?thesis unfolding n
    by (auto simp add: io_bind_def redis_incr_def redis_expire_def lookup_def alive_def
        split: option.splits if_splits)
next
  case (Some v)
  with assms(2) have v: "v = Num n"
    by (cases v) (simp_all add: int_or_zero_def py_int_def io_return_def io_raise_def fun_eq_iff)
  from Some assms(1) show ?thesis unfolding v
    by (auto simp add: io_bind_def redis_incr_def redis_expire_def lookup_def alive_def
        split: option.splits if_splits)
qed

lemma incr_expire_last:
  assumes "faults w = []" and "int_or_zero (lookup (cache w) k t) = io_return n"
  shows "io_bind (redis_incr k t) (\<lambda>_. redis_expire k ttl t) w =
         (Inr (), w\<lparr>cache := (cache w)(k \<mapsto> (Num (n + 1), Some (of_int t + ttl)))\<rparr>)"
proof -
  have "io_bind (redis_incr k t) (\<lambda>_. io_bind (redis_expire k ttl t) io_return) w =
        io_return () (w\<lparr>cache := (cache w)(k \<mapsto> (Num (n + 1), Some (of_int t + ttl)))\<rparr>)"
    using assms by (rule incr_expire_then)
  moreover have "io_bind (redis_expire k ttl t) io_return = redis_expire k ttl t"
    by (rule ext) (simp add: io_bind_def io_return_def split: prod.splits sum.splits)
  ultimately show ?thesis by (simp add: io_return_def)
qed

lemma increment_counters_run:
  assumes "redis_client w" and "faults w = []"
    and "int_or_zero (lookup (cache w) (RateMinuteKey i (t div 60)) t) = io_return mc"
    and "int_or_zero (lookup (cache w) (RateHourKey i (t div 3600)) t) = io_return hc"
  shows "increment_counters i t w =
     (Inr (), w\<lparr>cache := (cache w)
        (RateMinuteKey i (t div 60) \<mapsto> (Num (mc + 1), Some (of_int t + 60)),
         RateHourKey i (t div 3600) \<mapsto> (Num (hc + 1), Some (of_int t + 3600)))\<rparr>)"
proof -
  let ?w1 = "w\<lparr>cache := (cache w)(RateMinuteKey i (t div 60) \<mapsto> (Num (mc + 1), Some (of_int t + 60)))\<rparr>"
  have f1: "faults ?w1 = []" using assms(2) by simp
  have h1: "int_or_zero (lookup (cache ?w1) (RateHourKey i (t div 3600)) t) = io_return hc"
    using assms(4) by (simp add: lookup_def)
  show ?thesis
    unfolding increment_counters_def Let_def try_except_def
    by (simp add: assms(1) incr_expire_then [OF assms(2) assms(3)] incr_expire_last [OF f1 h1])
qed

lemma check_rate_limit_run:
  assumes "redis_client w" and "faults w = []"
    and "int_or_zero (lookup (cache w) (RateMinuteKey i (t div 60)) t) = io_return mc"
    and "int_or_zero (lookup (cache w) (RateHourKey i (t div 3600)) t) = io_return hc"
    and "limits_for self e = (ml, hl)"
  shows "check_rate_limit self i e t w =
     (Inr (if mc \<ge> ml then (False, Exceeded ml 0 ((t div 60 + 1) * 60) ''minute'')
           else if hc \<ge> hl then (False, Exceeded hl 0 ((t div 3600 + 1) * 3600) ''hour'')
           else (True, Within ml (ml - mc - 1) hl (hl - hc - 1))), w)"
  unfolding check_rate_limit_def Let_def try_except_def
  using assms by (simp add: io_return_def)

section \<open>Properties of the Brute-Force Guard\<close>

lemma lockout_duration_for_whole:
  assumes "max_failed_attempts \<le> f"
  shows "lockout_duration_for f = of_int (min (900 * 2 ^ nat (f - 5)) 3600)"
proof -
  have "(of_int lockout_duration * (2 powi (f - max_failed_attempts)) :: rat)
        = of_int (900 * 2 ^ nat (f - 5))"
    using assms by (simp add: power_int_def lockout_duration_def max_failed_attempts_def)
  moreover have "(3600::rat) = of_int 3600" by simp
  ultimately show ?thesis
    unfolding lockout_duration_for_def progressive_lockout_def
    by (simp only: if_True of_int_min)
qed

lemma lockout_duration_for_strict:
  assumes "max_failed_attempts \<le> f" "lockout_duration_for f < 3600"
  shows "lockout_duration_for f < lockout_duration_for (f + 1)"
proof -
  have e: "nat (f + 1 - 5) = Suc (nat (f - 5))"
    using assms(1) by (simp add: max_failed_attempts_def nat_add_distrib)
  have a: "lockout_duration_for f = of_int (min (900 * 2 ^ nat (f - 5)) 3600)"
    using assms(1) by (rule lockout_duration_for_whole)
  have b: "lockout_duration_for (f + 1) = of_int (min (900 * 2 ^ nat (f + 1 - 5)) 3600)"
    using assms(1) by (intro lockout_duration_for_whole) simp
  have pos: "(0::int) < 2 ^ nat (f - 5)" by simp
  have "(of_int (min (900 * 2 ^ nat (f - 5)) 3600) :: rat) < of_int 3600"
    using assms(2) unfolding a by (simp only: of_int_numeral)
  then have lt: "min ((900::int) * 2 ^ nat (f - 5)) 3600 < 3600"
    by (simp only: of_int_less_iff)
  have "min ((900::int) * 2 ^ nat (f - 5)) 3600 < min (900 * 2 ^ nat (f + 1 - 5)) 3600"
    unfolding e using lt pos by (simp add: min_def split: if_splits)
  then show ?thesis
    unfolding a b by (simp only: of_int_less_iff)
qed

lemma lockout_duration_for_capped: "lockout_duration_for f \<le> 3600"
  by (simp add: lockout_duration_for_def progressive_lockout_def)

lemma record_failed_attempt_run:
  assumes "redis_client w" "faults w = []"
    and "lookup (cache w) (FailedAttemptsKey endpoint identifier) now = Some (Num (f - 1))"
    and "max_failed_attempts \<le> f"
  shows "record_failed_attempt identifier endpoint now w =
      (Inr (), w\<lparr>cache := (cache w)
         (FailedAttemptsKey endpoint identifier \<mapsto>
            (Num f, Some (of_int now + lockout_duration_for f)),
          LockoutKey endpoint identifier \<mapsto>
            (Num (now + min (900 * 2 ^ nat (f - 5)) 3600),
             Some (of_int now + lockout_duration_for f)))\<rparr>)"
  using assms
  by (simp add: record_failed_attempt_def try_except_def io_bind_def get_redis_def redis_get_def
      store_call_def int_or_zero_def py_int_def io_return_def redis_setex_def Let_def
      lockout_duration_for_whole)

text \<open>
  C8. Let \<open>f\<close> be the failure count of one (endpoint, identity) pair after this call
  of \<^verbatim>\<open>record_failed_attempt\<close>, with \<open>f\<close> at or above the threshold 5, the cache
  reachable. Then the lockout lasts \<open>min (900 * 2 ^ (f - 5)) 3600\<close> seconds; the call
  stores the failure counter \<open>f\<close> and the lockout key (holding the instant
  \<open>now + duration\<close>) both with a TTL of exactly that duration and changes nothing
  else; the duration never exceeds 3600; and as long as it is below 3600, one more failure
  makes it strictly longer.
\<close>

theorem record_failed_attempt_progressive_lockout:
  assumes "redis_client w" and "faults w = []"
    and "lookup (cache w) (FailedAttemptsKey endpoint identifier) now = Some (Num (f - 1))"
    and "max_failed_attempts \<le> f"
  shows "lockout_duration_for f = of_int (min (900 * 2 ^ nat (f - 5)) 3600)
       \<and> record_failed_attempt identifier endpoint now w =
           (Inr (), w\<lparr>cache := (cache w)
              (FailedAttemptsKey endpoint identifier \<mapsto>
                 (Num f, Some (of_int now + lockout_duration_for f)),
               LockoutKey endpoint identifier \<mapsto>
                 (Num (now + min (900 * 2 ^ nat (f - 5)) 3600),
                  Some (of_int now + lockout_duration_for f)))\<rparr>)
       \<and> lockout_duration_for f \<le> 3600
       \<and> (lockout_duration_for f < 3600 \<longrightarrow>
            lockout_duration_for f < lockout_duration_for (f + 1))"
  using lockout_duration_for_whole [OF assms(4)] lockout_duration_for_strict [OF assms(4)]
    lockout_duration_for_capped [of f] record_failed_attempt_run [OF assms]
  by blast

theorem record_failed_attempt_progressive_lockout_witness:
  "lockout_duration_for 6 = 1800
   \<and> record_failed_attempt ''10.0.0.7:0a1b2c3d'' ''/api/v1/auth/login'' 100 world_five_failures =
       (Inr (), world_five_failures\<lparr>cache := (cache world_five_failures)
          (FailedAttemptsKey ''/api/v1/auth/login'' ''10.0.0.7:0a1b2c3d'' \<mapsto> (Num 6, Some 1900),
           LockoutKey ''/api/v1/auth/login'' ''10.0.0.7:0a1b2c3d'' \<mapsto> (Num 1900, Some 1900))\<rparr>)
   \<and> lockout_duration_for 6 < lockout_duration_for 7"
proof -
  have h1: "redis_client world_five_failures" and h2: "faults world_five_failures = []"
    by (simp_all add: world_five_failures_def world0_def)
  have h3: "lookup (cache world_five_failures)
              (FailedAttemptsKey ''/api/v1/auth/login'' ''10.0.0.7:0a1b2c3d'') 100
            = Some (Num (6 - 1))"
    by (simp add: world_five_failures_def world0_def lookup_def alive_def)
  have h4: "max_failed_attempts \<le> 6"
    by (simp add: max_failed_attempts_def)
  have d: "lockout_duration_for 6 = 1800"
    using lockout_duration_for_whole [OF h4] by simp
  show ?thesis
    using record_failed_attempt_progressive_lockout [OF h1 h2 h3 h4] d by simp
qed

section \<open>Fail-open behaviour of the protection layer\<close>

lemma check_rate_limit_fail_open:
  assumes "\<not> redis_client w \<or> True \<in> set (consumed w (snd (check_rate_limit self i e t w)))"
  shows "fst (check_rate_limit self i e t w) = Inr (True, NoInfo)"
  using assms unfolding check_rate_limit_def
  apply (elim disjE)
   apply (erule try_except_no_client)
  apply (erule try_except_fail_open [rotated])
  apply (auto simp add: Let_def split: prod.splits)
  done

lemma is_locked_out_fail_open:
  assumes "\<not> redis_client w \<or> True \<in> set (consumed w (snd (is_locked_out i e t w)))"
  shows "fst (is_locked_out i e t w) = Inr (False, 0)"
  using assms unfolding is_locked_out_def
  apply (elim disjE)
   apply (erule try_except_no_client)
  apply (erule try_except_fail_open [rotated])
  apply (auto simp add: Let_def split: option.splits)
  done

lemma unit_result: "fst (try_except m (\<lambda>e. io_return ()) w) = Inr ()"
  by (simp add: try_except_def io_return_def split: prod.splits sum.splits)

text \<open>
  C9. When a call to the Shared Cache raises (or the client was never initialised), the
  protection layer fails open: \<^verbatim>\<open>_check_rate_limit\<close> admits the request,
  \<^verbatim>\<open>is_locked_out\<close> reports not locked with 0 seconds remaining, and
  \<^verbatim>\<open>record_failed_attempt\<close> and \<^verbatim>\<open>clear_failed_attempts\<close> return normally; none
  of the four ever passes an exception to its caller.
\<close>

theorem protection_layer_fails_open:
  "((\<not> redis_client w \<or> True \<in> set (consumed w (snd (check_rate_limit self i e t w))))
      \<longrightarrow> fst (check_rate_limit self i e t w) = Inr (True, NoInfo))
   \<and> ((\<not> redis_client w \<or> True \<in> set (consumed w (snd (is_locked_out i e t w))))
      \<longrightarrow> fst (is_locked_out i e t w) = Inr (False, 0))
   \<and> fst (record_failed_attempt i e t w) = Inr ()
   \<and> fst (clear_failed_attempts i e w) = Inr ()
   \<and> (\<forall>x. fst (check_rate_limit self i e t w) \<noteq> Inl x)
   \<and> (\<forall>x. fst (is_locked_out i e t w) \<noteq> Inl x)"
  using check_rate_limit_fail_open [of w self i e t] is_locked_out_fail_open [of w i e t]
  by (auto simp add: record_failed_attempt_def clear_failed_attempts_def unit_result
      check_rate_limit_def is_locked_out_def try_except_default_total)

theorem protection_layer_fails_open_witness:
  "True \<in> set (consumed world_cache_down
       (snd (check_rate_limit settings_middleware ''10.0.0.7:d41d8cd9'' ''/api/v1/auth/login'' 100
              world_cache_down)))
   \<and> fst (check_rate_limit settings_middleware ''10.0.0.7:d41d8cd9'' ''/api/v1/auth/login'' 100
            world_cache_down) = Inr (True, NoInfo)
   \<and> True \<in> set (consumed world_cache_down
       (snd (is_locked_out ''10.0.0.7:d41d8cd9'' ''/api/v1/auth/login'' 100 world_cache_down)))
   \<and> fst (is_locked_out ''10.0.0.7:d41d8cd9'' ''/api/v1/auth/login'' 100 world_cache_down)
       = Inr (False, 0)"
proof -
  have a: "True \<in> set (consumed world_cache_down
       (snd (check_rate_limit settings_middleware ''10.0.0.7:d41d8cd9'' ''/api/v1/auth/login'' 100
              world_cache_down)))"
    by (simp add: check_rate_limit_def world_cache_down_def world0_def consumed_def Let_def
        io_defs get_redis_def redis_get_def store_call_def limits_for_def sensitive_endpoints_def)
  have b: "True \<in> set (consumed world_cache_down
       (snd (is_locked_out ''10.0.0.7:d41d8cd9'' ''/api/v1/auth/login'' 100 world_cache_down)))"
    by (simp add: is_locked_out_def world_cache_down_def world0_def consumed_def Let_def
        io_defs get_redis_def redis_get_def store_call_def)
  show ?thesis
    using a b protection_layer_fails_open [of world_cache_down settings_middleware
        "''10.0.0.7:d41d8cd9''" "''/api/v1/auth/login''" 100]
    by blast
qed

section \<open>Properties of the Rate Limiter\<close>

lemma limits_for_cases:
  "limits_for self ''/api/v1/auth/login'' = (5, 20)"
  "limits_for self ''/api/v1/auth/verify-otp'' = (10, 50)"
  "limits_for self ''/api/v1/auth/refresh'' = (20, 200)"
  "e \<notin> {''/api/v1/auth/login'', ''/api/v1/auth/verify-otp'', ''/api/v1/auth/refresh''}
     \<Longrightarrow> limits_for self e = (calls_per_minute self, calls_per_hour self)"
  by (simp_all add: limits_for_def sensitive_endpoints_def)

lemma dispatch_run:
  assumes "path req \<notin> set exempt_paths"
    and "redis_client w" and "faults w = []"
    and "int_or_zero (lookup (cache w)
           (RateMinuteKey (get_client_identifier md5 req) (t div 60)) t) = io_return mc"
    and "int_or_zero (lookup (cache w)
           (RateHourKey (get_client_identifier md5 req) (t div 3600)) t) = io_return hc"
    and "limits_for self (path req) = (ml, hl)"
  shows "dispatch self md5 req call_next t w =
     (if mc \<ge> ml then (Inl (too_many_requests ml ((t div 60 + 1) * 60) t), w)
      else if hc \<ge> hl then (Inl (too_many_requests hl ((t div 3600 + 1) * 3600) t), w)
      else io_bind (call_next req)
             (\<lambda>resp. io_return (add_rate_headers (Within ml (ml - mc - 1) hl (hl - hc - 1)) resp))
             (w\<lparr>cache := (cache w)
                (RateMinuteKey (get_client_identifier md5 req) (t div 60)
                   \<mapsto> (Num (mc + 1), Some (of_int t + 60)),
                 RateHourKey (get_client_identifier md5 req) (t div 3600)
                   \<mapsto> (Num (hc + 1), Some (of_int t + 3600)))\<rparr>))"
  unfolding dispatch_def Let_def
  using assms(1)
  by (simp add: io_bind_def [of "check_rate_limit self i e t" for i e t]
      io_bind_def [of "increment_counters i t" for i t]
      check_rate_limit_run [OF assms(2-6)] increment_counters_run [OF assms(2-5)] io_raise_def)

text \<open>
  C5 as stated fails on a path that \<^verbatim>\<open>dispatch\<close> exempts: a request to
  \<^verbatim>\<open>/health\<close> is passed on although the client's minute counter (60) has reached
  the minute limit (60), and no counter is incremented.
\<close>

theorem dispatch_exempt_counterexample:
  "lookup (cache world_minute_full)
     (RateMinuteKey (get_client_identifier md5_of_empty health_request) (100 div 60)) 100
     = Some (Num 60)
   \<and> limits_for settings_middleware (path health_request) = (60, 1000)
   \<and> dispatch settings_middleware md5_of_empty health_request ok_handler 100 world_minute_full
     = (Inr \<lparr>status_code = 200, headers = [], body = ''OK''\<rparr>, world_minute_full)"
  by (simp add: world_minute_full_def world0_def lookup_def alive_def get_client_identifier_def
      md5_of_empty_def health_request_def limits_for_def sensitive_endpoints_def
      settings_middleware_def dispatch_def exempt_paths_def ok_handler_def io_return_def)

text \<open>
  C5, amended. For every request whose path is not one of the exempt paths
  (\<^verbatim>\<open>/\<close>, \<^verbatim>\<open>/health\<close>, \<^verbatim>\<open>/docs\<close>, \<^verbatim>\<open>/redoc\<close>, \<^verbatim>\<open>/openapi.json\<close>), with the
  cache reachable: the request is rejected (HTTP 429, the world unchanged, so neither
  counter is incremented) exactly when the minute count read before any increment is at or
  above the minute limit or the hour count is at or above the hour limit; otherwise the
  handler runs once, in the world in which both counters are one higher than before, with
  TTL 60 and 3600. The limits are 5/20 for login, 10/50 for verify-otp, 20/200 for refresh
  and the middleware's defaults for every other path.
\<close>

theorem dispatch_admission_rule:
  assumes "path req \<notin> set exempt_paths"
    and "redis_client w" and "faults w = []"
    and "int_or_zero (lookup (cache w)
           (RateMinuteKey (get_client_identifier md5 req) (t div 60)) t) = io_return mc"
    and "int_or_zero (lookup (cache w)
           (RateHourKey (get_client_identifier md5 req) (t div 3600)) t) = io_return hc"
    and "limits_for self (path req) = (ml, hl)"
  shows "dispatch self md5 req call_next t w =
     (if mc \<ge> ml then (Inl (too_many_requests ml ((t div 60 + 1) * 60) t), w)
      else if hc \<ge> hl then (Inl (too_many_requests hl ((t div 3600 + 1) * 3600) t), w)
      else io_bind (call_next req)
             (\<lambda>resp. io_return (add_rate_headers (Within ml (ml - mc - 1) hl (hl - hc - 1)) resp))
             (w\<lparr>cache := (cache w)
                (RateMinuteKey (get_client_identifier md5 req) (t div 60)
                   \<mapsto> (Num (mc + 1), Some (of_int t + 60)),
                 RateHourKey (get_client_identifier md5 req) (t div 3600)
                   \<mapsto> (Num (hc + 1), Some (of_int t + 3600)))\<rparr>))
   \<and> limits_for self ''/api/v1/auth/login'' = (5, 20)
   \<and> limits_for self ''/api/v1/auth/verify-otp'' = (10, 50)
   \<and> limits_for self ''/api/v1/auth/refresh'' = (20, 200)
   \<and> (path req \<notin> {''/api/v1/auth/login'', ''/api/v1/auth/verify-otp'', ''/api/v1/auth/refresh''}
        \<longrightarrow> limits_for self (path req) = (calls_per_minute self, calls_per_hour self))"
  using dispatch_run [OF assms] limits_for_cases(4) [of "path req" self]
  by (simp only: limits_for_cases(1-3)) blast

theorem dispatch_admission_rule_witness:
  "path login_request \<notin> set exempt_paths
   \<and> dispatch settings_middleware md5_of_empty login_request ok_handler 100 world_login_full
     = (Inl (too_many_requests 5 120 100), world_login_full)"
proof -
  have h1: "path login_request \<notin> set exempt_paths"
    by (simp add: login_request_def exempt_paths_def)
  have h2: "redis_client world_login_full" and h3: "faults world_login_full = []"
    by (simp_all add: world_login_full_def world0_def)
  have i: "get_client_identifier md5_of_empty login_request = ''10.0.0.7:d41d8cd9''"
    by (simp add: get_client_identifier_def md5_of_empty_def login_request_def)
  have h4: "int_or_zero (lookup (cache world_login_full)
           (RateMinuteKey (get_client_identifier md5_of_empty login_request) (100 div 60)) 100)
          = io_return 5"
    unfolding i
    by (simp add: world_login_full_def world0_def lookup_def alive_def int_or_zero_def py_int_def)
  have h5: "int_or_zero (lookup (cache world_login_full)
           (RateHourKey (get_client_identifier md5_of_empty login_request) (100 div 3600)) 100)
          = io_return 5"
    unfolding i
    by (simp add: world_login_full_def world0_def lookup_def alive_def int_or_zero_def py_int_def)
  have h6: "limits_for settings_middleware (path login_request) = (5, 20)"
    by (simp add: login_request_def limits_for_cases)
  show ?thesis
    using h1 dispatch_admission_rule [OF h1 h2 h3 h4 h5 h6, of ok_handler] by simp
qed

section \<open>Runs of the OTP Authenticator without store errors\<close>

lemma redis_setex_ok [simp]:
  "faults w = [] \<Longrightarrow> io_bind (redis_setex k ttl v now) f w =
     f () (w\<lparr>cache := (cache w)(k \<mapsto> (v, Some (of_int now + ttl)))\<rparr>)"
  by (simp add: io_bind_def redis_setex_def)

lemma redis_setex_run:
  "faults w = [] \<Longrightarrow> redis_setex k ttl v now w =
     (Inr (), w\<lparr>cache := (cache w)(k \<mapsto> (v, Some (of_int now + ttl)))\<rparr>)"
  by (simp add: redis_setex_def)

lemma redis_delete_ok [simp]:
  "faults w = [] \<Longrightarrow> io_bind (redis_delete k) f w = f () (w\<lparr>cache := (cache w)(k := None)\<rparr>)"
  by (simp add: io_bind_def redis_delete_def)

lemma select_otp_ok [simp]:
  "faults w = [] \<Longrightarrow> io_bind (select_otp p) f w = f (filter p (otp_verifications w)) w"
  by (simp add: io_bind_def select_otp_def)

lemma update_otp_ok [simp]:
  "faults w = [] \<Longrightarrow> io_bind (update_otp p g) f w =
     f () (w\<lparr>otp_verifications := map (\<lambda>r. if p r then g r else r) (otp_verifications w)\<rparr>)"
  by (simp add: io_bind_def update_otp_def)

lemma select_vendors_ok [simp]:
  "faults w = [] \<Longrightarrow> io_bind (select_vendors p) f w = f (filter p (vendors w)) w"
  by (simp add: io_bind_def select_vendors_def)

lemma update_vendors_ok [simp]:
  "faults w = [] \<Longrightarrow> io_bind (update_vendors p g) f w =
     f () (w\<lparr>vendors := map (\<lambda>r. if p r then g r else r) (vendors w)\<rparr>)"
  by (simp add: io_bind_def update_vendors_def)

lemma insert_vendor_ok [simp]:
  "faults w = [] \<Longrightarrow> io_bind (insert_vendor r) f w =
     f [r\<lparr>vendor_id := fresh_id (map vendor_id (vendors w))\<rparr>]
       (w\<lparr>vendors := vendors w @ [r\<lparr>vendor_id := fresh_id (map vendor_id (vendors w))\<rparr>]\<rparr>)"
  by (simp add: io_bind_def insert_vendor_def Let_def)

lemma select_sessions_ok [simp]:
  "faults w = [] \<Longrightarrow> io_bind (select_sessions p) f w = f (filter p (vendor_sessions w)) w"
  by (simp add: io_bind_def select_sessions_def)

lemma update_sessions_ok [simp]:
  "faults w = [] \<Longrightarrow> io_bind (update_sessions p g) f w =
     f () (w\<lparr>vendor_sessions := map (\<lambda>r. if p r then g r else r) (vendor_sessions w)\<rparr>)"
  by (simp add: io_bind_def update_sessions_def)

lemma delete_sessions_ok [simp]:
  "faults w = [] \<Longrightarrow> io_bind (delete_sessions p) f w =
     f () (w\<lparr>vendor_sessions := filter (\<lambda>r. \<not> p r) (vendor_sessions w)\<rparr>)"
  by (simp add: io_bind_def delete_sessions_def)

lemma insert_session_ok [simp]:
  "faults w = [] \<Longrightarrow> io_bind (insert_session r) f w =
     f [r\<lparr>session_id := fresh_id (map session_id (vendor_sessions w))\<rparr>]
       (w\<lparr>vendor_sessions := vendor_sessions w @
            [r\<lparr>session_id := fresh_id (map session_id (vendor_sessions w))\<rparr>]\<rparr>)"
  by (simp add: io_bind_def insert_session_def Let_def)

lemma settings_JWT_SECRET_ok [simp]: "io_bind settings_JWT_SECRET f w = f (jwt_secret w) w"
  by (simp add: io_bind_def settings_JWT_SECRET_def)

lemma try_except_Inr: "m w = (Inr a, w') \<Longrightarrow> try_except m h w = (Inr a, w')"
  by (simp add: try_except_def)

lemma try_except_Inl: "m w = (Inl e, w') \<Longrightarrow> try_except m h w = h e w'"
  by (simp add: try_except_def)

lemma create_vendor_session_run:
  assumes "faults w = []"
  shows "create_vendor_session vid access refresh now w =
     (Inr (), w\<lparr>vendor_sessions := vendor_sessions w @
                  [\<lparr>session_id = fresh_id (map session_id (vendor_sessions w)),
                    session_vendor = vid, session_token = access, refresh_token_of = refresh,
                    session_expires_at = now + 30 * 86400, last_used = None\<rparr>],
               cache := (cache w)(VendorSessionKey access \<mapsto>
                  (SessionData vid (now + 30 * 86400), Some (of_int now + 24 * 3600)))\<rparr>)"
  unfolding create_vendor_session_def Let_def
  by (intro try_except_Inr) (simp add: assms redis_setex_run)


lemma get_or_create_vendor_new_phone:
  assumes "faults w = []" and "is_valid_phone ident"
    and "filter (\<lambda>v. phone_number v = Some ident) (vendors w) = []"
  shows "get_or_create_vendor ident now w =
     (let row = \<lparr>vendor_id = fresh_id (map vendor_id (vendors w)), name = [],
                 market_location = [], preferred_language = ''hi'', status = ''active'',
                 last_active = now, phone_number = Some ident, email = None\<rparr>
      in (Inr row, w\<lparr>vendors := vendors w @ [row]\<rparr>))"
  unfolding get_or_create_vendor_def Let_def
  using assms by (intro try_except_Inr) (simp add: io_return_def)


lemma randbelow_ok [simp]:
  "io_bind (randbelow n) f w =
     (case entropy w of [] \<Rightarrow> f 0 w | r # rs \<Rightarrow> f (r mod n) (w\<lparr>entropy := rs\<rparr>))"
  by (simp add: io_bind_def randbelow_def split: list.splits)




lemma verify_otp_rejects:
  assumes "faults w = []" and "lookup (cache w) (OtpTokenKey tok) now = Some v"
    and "filter (\<lambda>r. Num (otp_id r) = v) (otp_verifications w) = row # rest"
    and "now > otp_expires_at row \<or> verified row \<or> attempts row \<ge> max_otp_attempts"
  shows "verify_otp tok otp now w =
     (Inl (if now > otp_expires_at row then Expired
           else if verified row then AlreadyUsed else AttemptsExhausted), w)"
  unfolding verify_otp_def Let_def try_except_def
  using assms by (auto simp add: io_raise_def)

lemma verify_otp_wrong_code:
  assumes "faults w = []" and "lookup (cache w) (OtpTokenKey tok) now = Some v"
    and "filter (\<lambda>r. Num (otp_id r) = v) (otp_verifications w) = row # rest"
    and "now \<le> otp_expires_at row" and "\<not> verified row"
    and "attempts row < max_otp_attempts"
    and "\<not> pwd_verify otp (otp_code row)"
  shows "verify_otp tok otp now w =
     (Inl (InvalidCode (max_otp_attempts - (attempts row + 1))),
      w\<lparr>otp_verifications := map (\<lambda>r. if Num (otp_id r) = v
                                        then r\<lparr>attempts := attempts row + 1\<rparr> else r)
                                   (otp_verifications w)\<rparr>)"
  unfolding verify_otp_def Let_def try_except_def
  using assms by (simp add: io_raise_def)

lemma verify_otp_success:
  assumes "faults w = []" and "lookup (cache w) (OtpTokenKey tok) now = Some v"
    and "filter (\<lambda>r. Num (otp_id r) = v) (otp_verifications w) = row # rest"
    and "now \<le> otp_expires_at row" and "\<not> verified row"
    and "attempts row < max_otp_attempts"
    and "pwd_verify otp (otp_code row)"
    and "get_or_create_vendor (phone_or_email row) now
           (w\<lparr>otp_verifications := map (\<lambda>r. if Num (otp_id r) = v
                 then r\<lparr>verified := True, attempts := attempts row + 1\<rparr> else r)
                 (otp_verifications w)\<rparr>) = (Inr vendor, w2)"
    and "faults w2 = []" and "jwt_secret w2 = jwt_secret w"
  shows "verify_otp tok otp now w =
     (Inr \<lparr>access_token = fst (generate_jwt_tokens (jwt_secret w) (vendor_id vendor) now),
           refresh_token = snd (generate_jwt_tokens (jwt_secret w) (vendor_id vendor) now),
           response_vendor_id = vendor_id vendor\<rparr>,
      w2\<lparr>vendor_sessions := vendor_sessions w2 @
            [\<lparr>session_id = fresh_id (map session_id (vendor_sessions w2)),
              session_vendor = vendor_id vendor,
              session_token = fst (generate_jwt_tokens (jwt_secret w) (vendor_id vendor) now),
              refresh_token_of = snd (generate_jwt_tokens (jwt_secret w) (vendor_id vendor) now),
              session_expires_at = now + 30 * 86400, last_used = None\<rparr>],
          cache := ((cache w2)
            (VendorSessionKey (fst (generate_jwt_tokens (jwt_secret w) (vendor_id vendor) now))
               \<mapsto> (SessionData (vendor_id vendor) (now + 30 * 86400),
                    Some (of_int now + 24 * 3600))))
            (OtpTokenKey tok := None)\<rparr>)"
  unfolding verify_otp_def Let_def try_except_def
  using assms
  by (simp add: io_bind_def [of "get_or_create_vendor i n" for i n]
      io_bind_def [of "create_vendor_session a b c d" for a b c d]
      create_vendor_session_run io_return_def split: prod.splits)



lemma filter_map_update:
  assumes "\<And>r. p (g r) = p r"
  shows "filter p (map (\<lambda>r. if p r then g r else r) xs) = map g (filter p xs)"
  by (induction xs) (simp_all add: assms)

lemma lookup_earlier:
  assumes "lookup c k t = Some v" and "s \<le> t"
  shows "lookup c k s = Some v"
proof -
  from assms(1) obtain e where e: "c k = Some e" "alive t e" "fst e = v"
    by (auto simp add: lookup_def split: option.splits if_splits)
  from e(2) assms(2) have "alive s e"
    by (auto simp add: alive_def split: option.splits)
  with e show ?thesis by (simp add: lookup_def)
qed

lemma post_raise [intro!, simp]: "post Q (io_raise e)"
  by (simp add: post_def io_raise_def)

lemma post_bind [intro!]: "(\<And>a. post Q (f a)) \<Longrightarrow> post Q (io_bind m f)"
  unfolding post_def io_bind_def
  by (auto split: prod.splits sum.splits)

lemma post_reraise [intro!]: "post Q m \<Longrightarrow> post Q (try_except m io_raise)"
  unfolding post_def try_except_def io_raise_def
  by (auto split: prod.splits sum.splits)

lemma post_if [intro!]: "(c \<Longrightarrow> post Q a) \<Longrightarrow> (\<not> c \<Longrightarrow> post Q b) \<Longrightarrow> post Q (if c then a else b)"
  by simp

lemma post_delete_return [intro!]:
  "post (\<lambda>a w'. cache w' k = None) (io_bind (redis_delete k) (\<lambda>_. io_return r))"
  unfolding post_def io_bind_def redis_delete_def store_call_def io_return_def
  by (auto split: prod.splits sum.splits list.splits if_splits)

lemma verify_otp_consumes_token:
  "post (\<lambda>a w'. cache w' (OtpTokenKey tok) = None) (verify_otp tok otp now)"
proof -
  show ?thesis
    unfolding verify_otp_def Let_def
    apply (rule post_reraise)
    apply (rule post_bind)
    apply (simp split: option.splits)
    apply (intro allI impI post_bind)
    apply (simp split: list.splits)
    apply (intro allI impI conjI post_if post_raise)
     apply (rule post_bind, simp)
    apply (rule post_bind)+
    apply (simp split: prod.splits)
    apply (intro allI impI)
    apply (rule post_bind)
    apply (rule post_delete_return)
    done
qed


lemma verify_otp_exhausted_any_code:
  assumes "faults w = []" and "lookup (cache w) (OtpTokenKey tok) now = Some v"
    and "filter (\<lambda>r. Num (otp_id r) = v) (otp_verifications w) = row # rest"
    and "\<not> verified row" and "now \<le> otp_expires_at row" and "attempts row \<ge> 3"
  shows "verify_otp tok otp now w = (Inl AttemptsExhausted, w)"
  using verify_otp_rejects [OF assms(1-3), of otp] assms(4-6)
  by (simp add: max_otp_attempts_def)

lemma verify_otp_wrong_step:
  assumes "faults w = []" and "lookup (cache w) (OtpTokenKey tok) now = Some v"
    and "filter (\<lambda>r. Num (otp_id r) = v) (otp_verifications w) = row # rest"
    and "\<not> verified row" and "now \<le> otp_expires_at row" and "attempts row < 3"
    and "\<not> pwd_verify otp (otp_code row)"
  obtains w' where
    "verify_otp tok otp now w = (Inl (InvalidCode (2 - attempts row)), w')"
    "faults w' = []" "cache w' = cache w"
    "filter (\<lambda>r. Num (otp_id r) = v) (otp_verifications w')
       = row\<lparr>attempts := attempts row + 1\<rparr> # map (\<lambda>r. r\<lparr>attempts := attempts row + 1\<rparr>) rest"
proof -
  let ?w' = "w\<lparr>otp_verifications := map (\<lambda>r. if Num (otp_id r) = v
                 then r\<lparr>attempts := attempts row + 1\<rparr> else r) (otp_verifications w)\<rparr>"
  have "verify_otp tok otp now w = (Inl (InvalidCode (2 - attempts row)), ?w')"
    using verify_otp_wrong_code [OF assms(1-3) assms(5) assms(4) _ assms(7)] assms(6)
    by (simp add: max_otp_attempts_def)
  moreover have "filter (\<lambda>r. Num (otp_id r) = v) (otp_verifications ?w')
       = row\<lparr>attempts := attempts row + 1\<rparr> # map (\<lambda>r. r\<lparr>attempts := attempts row + 1\<rparr>) rest"
    using filter_map_update [of "\<lambda>r. Num (otp_id r) = v" "\<lambda>r. r\<lparr>attempts := attempts row + 1\<rparr>"
        "otp_verifications w"] assms(3)
    by simp
  ultimately show ?thesis
    using assms(1) by (intro that [of ?w']) simp_all
qed

lemma three_wrong_codes:
  assumes "faults w = []"
    and "lookup (cache w) (OtpTokenKey tok) t4 = Some v"
    and "filter (\<lambda>r. Num (otp_id r) = v) (otp_verifications w) = row # rest"
    and "\<not> verified row" and "t4 \<le> otp_expires_at row"
    and "attempts row = 0" and "t1 \<le> t2" and "t2 \<le> t3" and "t3 \<le> t4"
    and "\<not> pwd_verify c1 (otp_code row)" and "\<not> pwd_verify c2 (otp_code row)"
    and "\<not> pwd_verify c3 (otp_code row)"
  shows "(let (r1, w1) = verify_otp tok c1 t1 w;
              (r2, w2) = verify_otp tok c2 t2 w1;
              (r3, w3) = verify_otp tok c3 t3 w2;
              (r4, w4) = verify_otp tok otp t4 w3
          in r1 = Inl (InvalidCode 2) \<and> r2 = Inl (InvalidCode 1) \<and> r3 = Inl (InvalidCode 0)
             \<and> r4 = Inl AttemptsExhausted)"
proof -
  have l1: "lookup (cache w) (OtpTokenKey tok) t1 = Some v"
    and l2: "lookup (cache w) (OtpTokenKey tok) t2 = Some v"
    and l3: "lookup (cache w) (OtpTokenKey tok) t3 = Some v"
    using assms(2,7,8,9) by (auto intro: lookup_earlier)
  have e1: "t1 \<le> otp_expires_at row" and e2: "t2 \<le> otp_expires_at row"
    and e3: "t3 \<le> otp_expires_at row"
    using assms(5,7,8,9) by auto
  from assms(6) have a0: "attempts row < 3" by simp
  from verify_otp_wrong_step [OF assms(1) l1 assms(3) assms(4) e1 a0 assms(10)]
  obtain w1 where s1: "verify_otp tok c1 t1 w = (Inl (InvalidCode (2 - attempts row)), w1)"
    and f1: "faults w1 = []" and c1: "cache w1 = cache w"
    and r1: "filter (\<lambda>r. Num (otp_id r) = v) (otp_verifications w1)
       = row\<lparr>attempts := attempts row + 1\<rparr> # map (\<lambda>r. r\<lparr>attempts := attempts row + 1\<rparr>) rest"
    by blast
  let ?row1 = "row\<lparr>attempts := attempts row + 1\<rparr>"
  have l2': "lookup (cache w1) (OtpTokenKey tok) t2 = Some v" using l2 c1 by simp
  have p1: "\<not> verified ?row1" "t2 \<le> otp_expires_at ?row1" "attempts ?row1 < 3"
    "\<not> pwd_verify c2 (otp_code ?row1)"
    using assms(4,6,11) e2 by simp_all
  from verify_otp_wrong_step [OF f1 l2' r1 p1]
  obtain w2 where s2: "verify_otp tok c2 t2 w1 = (Inl (InvalidCode (2 - attempts ?row1)), w2)"
    and f2: "faults w2 = []" and c2: "cache w2 = cache w1"
    and r2: "filter (\<lambda>r. Num (otp_id r) = v) (otp_verifications w2)
       = ?row1\<lparr>attempts := attempts ?row1 + 1\<rparr>
         # map (\<lambda>r. r\<lparr>attempts := attempts ?row1 + 1\<rparr>)
             (map (\<lambda>r. r\<lparr>attempts := attempts row + 1\<rparr>) rest)"
    by blast
  let ?row2 = "?row1\<lparr>attempts := attempts ?row1 + 1\<rparr>"
  have l3': "lookup (cache w2) (OtpTokenKey tok) t3 = Some v" using l3 c1 c2 by simp
  have p2: "\<not> verified ?row2" "t3 \<le> otp_expires_at ?row2" "attempts ?row2 < 3"
    "\<not> pwd_verify c3 (otp_code ?row2)"
    using assms(4,6,12) e3 by simp_all
  from verify_otp_wrong_step [OF f2 l3' r2 p2]
  obtain w3 where s3: "verify_otp tok c3 t3 w2 = (Inl (InvalidCode (2 - attempts ?row2)), w3)"
    and f3: "faults w3 = []" and c3: "cache w3 = cache w2"
    and r3: "filter (\<lambda>r. Num (otp_id r) = v) (otp_verifications w3)
       = ?row2\<lparr>attempts := attempts ?row2 + 1\<rparr>
         # map (\<lambda>r. r\<lparr>attempts := attempts ?row2 + 1\<rparr>)
             (map (\<lambda>r. r\<lparr>attempts := attempts ?row1 + 1\<rparr>)
               (map (\<lambda>r. r\<lparr>attempts := attempts row + 1\<rparr>) rest))"
    by blast
  let ?row3 = "?row2\<lparr>attempts := attempts ?row2 + 1\<rparr>"
  have l4': "lookup (cache w3) (OtpTokenKey tok) t4 = Some v" using assms(2) c1 c2 c3 by simp
  have p3: "\<not> verified ?row3" "t4 \<le> otp_expires_at ?row3" "attempts ?row3 \<ge> 3"
    using assms(4,5,6) by simp_all
  have s4: "verify_otp tok otp t4 w3 = (Inl AttemptsExhausted, w3)"
    by (rule verify_otp_exhausted_any_code [OF f3 l4' r3 p3])
  show ?thesis
    using s1 s2 s3 s4 assms(6) by simp
qed

section \<open>Runs from the concrete worlds\<close>

lemma store_otp_run:
  "store_otp ''+919876543210'' ''123456'' 0 (world0\<lparr>entropy := [4711, 7]\<rparr>)
     = (Inr ''4711'', world_with_otp fresh_row)"
proof -
  have s: "str_nat 4711 = ''4711''"
    by (simp add: str_nat.simps digit_char_def)
  show ?thesis
    unfolding store_otp_def Let_def
    by (intro try_except_Inr)
      (simp add: io_bind_def token_urlsafe_def randbelow_def insert_otp_def redis_setex_def
        store_call_def io_return_def world0_def world_with_otp_def fresh_row_def pwd_hash_def
        otp_expiry_def fresh_id_def s Let_def)
qed

lemma world_with_otp_facts:
  "faults (world_with_otp row) = []"
  "now < 300 \<Longrightarrow> lookup (cache (world_with_otp row)) (OtpTokenKey ''4711'') now = Some (Num 1)"
  "otp_id row = 1 \<Longrightarrow>
     filter (\<lambda>r. Num (otp_id r) = Num 1) (otp_verifications (world_with_otp row)) = [row]"
  "jwt_secret (world_with_otp row) = ''server-secret''"
  by (simp_all add: world_with_otp_def world0_def lookup_def alive_def)

lemma is_valid_phone_example: "is_valid_phone ''+919876543210''"
  by (simp add: is_valid_phone_def phone_body_def phone_core_def is_digit_def)

lemma first_login_vendor:
  "get_or_create_vendor ''+919876543210'' 10
     ((world_with_otp fresh_row)\<lparr>otp_verifications :=
        [fresh_row\<lparr>verified := True, attempts := 1\<rparr>]\<rparr>)
   = (Inr \<lparr>vendor_id = 1, name = [], market_location = [],
            preferred_language = ''hi'', status = ''active'', last_active = 10,
            phone_number = Some ''+919876543210'', email = None\<rparr>,
      (world_with_otp fresh_row)\<lparr>otp_verifications :=
          [fresh_row\<lparr>verified := True, attempts := 1\<rparr>],
        vendors := [\<lparr>vendor_id = 1, name = [], market_location = [],
            preferred_language = ''hi'', status = ''active'', last_active = 10,
            phone_number = Some ''+919876543210'', email = None\<rparr>]\<rparr>)"
proof -
  let ?w = "(world_with_otp fresh_row)\<lparr>otp_verifications :=
        [fresh_row\<lparr>verified := True, attempts := 1\<rparr>]\<rparr>"
  have f: "faults ?w = []" by (simp add: world_with_otp_facts)
  have n: "filter (\<lambda>v. phone_number v = Some ''+919876543210'') (vendors ?w) = []"
    by (simp add: world_with_otp_def world0_def)
  show ?thesis
    using get_or_create_vendor_new_phone [OF f is_valid_phone_example n, of 10]
    by (simp add: Let_def fresh_id_def world_with_otp_def world0_def)
qed

lemma first_login_run:
  "verify_otp ''4711'' ''123456'' 10 (world_with_otp fresh_row) =
     (Inr \<lparr>access_token = first_access_token, refresh_token = first_refresh_token,
           response_vendor_id = 1\<rparr>, world_after_login)"
proof -
  let ?w = "world_with_otp fresh_row"
  have h: "faults ?w = []" "lookup (cache ?w) (OtpTokenKey ''4711'') 10 = Some (Num 1)"
    "filter (\<lambda>r. Num (otp_id r) = Num 1) (otp_verifications ?w) = fresh_row # []"
    "10 \<le> otp_expires_at fresh_row" "\<not> verified fresh_row"
    "attempts fresh_row < max_otp_attempts" "pwd_verify ''123456'' (otp_code fresh_row)"
    by (simp_all add: world_with_otp_def world0_def lookup_def alive_def fresh_row_def
        max_otp_attempts_def)
  have g: "get_or_create_vendor (phone_or_email fresh_row) 10
      (?w\<lparr>otp_verifications := map (\<lambda>r. if Num (otp_id r) = Num 1
         then r\<lparr>verified := True, attempts := attempts fresh_row + 1\<rparr> else r)
         (otp_verifications ?w)\<rparr>)
     = (Inr \<lparr>vendor_id = 1, name = [], market_location = [],
            preferred_language = ''hi'', status = ''active'', last_active = 10,
            phone_number = Some ''+919876543210'', email = None\<rparr>,
      ?w\<lparr>otp_verifications := [fresh_row\<lparr>verified := True, attempts := 1\<rparr>],
        vendors := [\<lparr>vendor_id = 1, name = [], market_location = [],
            preferred_language = ''hi'', status = ''active'', last_active = 10,
            phone_number = Some ''+919876543210'', email = None\<rparr>]\<rparr>)"
    using first_login_vendor
    by (simp add: world_with_otp_def world0_def fresh_row_def)
  show ?thesis
    using verify_otp_success [OF h g]
    by (simp add: world_with_otp_def world0_def world_after_login_def generate_jwt_tokens_def
        first_access_token_def first_refresh_token_def fresh_id_def fun_eq_iff)
qed



section \<open>The order of the checks in \<^verbatim>\<open>verify_otp\<close>\<close>



section \<open>Replay of a verified OTP\<close>




section \<open>The cap on verification attempts\<close>

text \<open>
  C2 as stated fails in its scenario: of three wrong codes in a row on a fresh record, the
  third is answered with \<open>InvalidCode\<close> and 0 attempts remaining, not with
  \<open>AttemptsExhausted\<close>.
\<close>

theorem verify_otp_third_failure_counterexample:
  "fst (verify_otp ''4711'' ''000000'' 12
         (snd (verify_otp ''4711'' ''000000'' 11
           (snd (verify_otp ''4711'' ''000000'' 10 (world_with_otp fresh_row))))))
     = Inl (InvalidCode 0)"
proof -
  have h: "faults (world_with_otp fresh_row) = []"
    "lookup (cache (world_with_otp fresh_row)) (OtpTokenKey ''4711'') 13 = Some (Num 1)"
    "filter (\<lambda>r. Num (otp_id r) = Num 1) (otp_verifications (world_with_otp fresh_row))
       = fresh_row # []"
    "\<not> verified fresh_row" "13 \<le> otp_expires_at fresh_row" "attempts fresh_row = 0"
    "(10::int) \<le> 11" "(11::int) \<le> 12" "(12::int) \<le> 13"
    "\<not> pwd_verify ''000000'' (otp_code fresh_row)"
    "\<not> pwd_verify ''000000'' (otp_code fresh_row)"
    "\<not> pwd_verify ''000000'' (otp_code fresh_row)"
    by (simp_all add: world_with_otp_def world0_def lookup_def alive_def fresh_row_def)
  show ?thesis
    using three_wrong_codes [OF h, of "''123456''"]
    by (simp add: Let_def case_prod_beta)
qed

text \<open>
  C2, amended. For a record that is unverified and not past \<open>expires_at\<close>, reached
  through a token whose cache mapping is alive, with no store call raising: once
  \<open>attempts\<close> is 3 or more, \<^verbatim>\<open>verify_otp\<close> fails with \<open>AttemptsExhausted\<close> for
  every code, the right one included, and changes nothing. Three wrong codes in a row on
  a fresh record are answered with \<open>InvalidCode\<close> and 2, 1 and 0 attempts remaining; the
  fourth call then fails with \<open>AttemptsExhausted\<close> whatever its code.
\<close>

theorem verify_otp_attempts_exhausted:
  assumes "faults w = []"
    and "lookup (cache w) (OtpTokenKey tok) t4 = Some v"
    and "filter (\<lambda>r. Num (otp_id r) = v) (otp_verifications w) = row # rest"
    and "\<not> verified row" and "t4 \<le> otp_expires_at row"
  shows "(attempts row \<ge> 3 \<longrightarrow> verify_otp tok otp t4 w = (Inl AttemptsExhausted, w))
   \<and> (attempts row = 0 \<and> t1 \<le> t2 \<and> t2 \<le> t3 \<and> t3 \<le> t4
        \<and> \<not> pwd_verify c1 (otp_code row) \<and> \<not> pwd_verify c2 (otp_code row)
        \<and> \<not> pwd_verify c3 (otp_code row) \<longrightarrow>
       (let (r1, w1) = verify_otp tok c1 t1 w;
            (r2, w2) = verify_otp tok c2 t2 w1;
            (r3, w3) = verify_otp tok c3 t3 w2;
            (r4, w4) = verify_otp tok otp t4 w3
        in r1 = Inl (InvalidCode 2) \<and> r2 = Inl (InvalidCode 1) \<and> r3 = Inl (InvalidCode 0)
           \<and> r4 = Inl AttemptsExhausted))"
proof (intro conjI impI)
  assume "attempts row \<ge> 3"
  then show "verify_otp tok otp t4 w = (Inl AttemptsExhausted, w)"
    by (rule verify_otp_exhausted_any_code [OF assms])
next
  assume a: "attempts row = 0 \<and> t1 \<le> t2 \<and> t2 \<le> t3 \<and> t3 \<le> t4
        \<and> \<not> pwd_verify c1 (otp_code row) \<and> \<not> pwd_verify c2 (otp_code row)
        \<and> \<not> pwd_verify c3 (otp_code row)"
  then have b: "attempts row = 0" "t1 \<le> t2" "t2 \<le> t3" "t3 \<le> t4"
    "\<not> pwd_verify c1 (otp_code row)" "\<not> pwd_verify c2 (otp_code row)"
    "\<not> pwd_verify c3 (otp_code row)"
    by simp_all
  show "(let (r1, w1) = verify_otp tok c1 t1 w;
            (r2, w2) = verify_otp tok c2 t2 w1;
            (r3, w3) = verify_otp tok c3 t3 w2;
            (r4, w4) = verify_otp tok otp t4 w3
        in r1 = Inl (InvalidCode 2) \<and> r2 = Inl (InvalidCode 1) \<and> r3 = Inl (InvalidCode 0)
           \<and> r4 = Inl AttemptsExhausted)"
    by (rule three_wrong_codes [OF assms b])
qed

theorem verify_otp_attempts_exhausted_witness:
  "verify_otp ''4711'' ''123456'' 13 (world_with_otp (fresh_row\<lparr>attempts := 3\<rparr>))
     = (Inl AttemptsExhausted, world_with_otp (fresh_row\<lparr>attempts := 3\<rparr>))
   \<and> (let (r1, w1) = verify_otp ''4711'' ''000000'' 10 (world_with_otp fresh_row);
           (r2, w2) = verify_otp ''4711'' ''111111'' 11 w1;
           (r3, w3) = verify_otp ''4711'' ''222222'' 12 w2;
           (r4, w4) = verify_otp ''4711'' ''123456'' 13 w3
       in r1 = Inl (InvalidCode 2) \<and> r2 = Inl (InvalidCode 1) \<and> r3 = Inl (InvalidCode 0)
          \<and> r4 = Inl AttemptsExhausted)"
proof -
  have h: "faults (world_with_otp row) = []"
    "lookup (cache (world_with_otp row)) (OtpTokenKey ''4711'') 13 = Some (Num 1)" for row
    by (simp_all add: world_with_otp_def world0_def lookup_def alive_def)
  have r: "filter (\<lambda>r. Num (otp_id r) = Num 1) (otp_verifications (world_with_otp fresh_row))
       = fresh_row # []"
    "filter (\<lambda>r. Num (otp_id r) = Num 1)
        (otp_verifications (world_with_otp (fresh_row\<lparr>attempts := 3\<rparr>)))
       = fresh_row\<lparr>attempts := 3\<rparr> # []"
    by (simp_all add: world_with_otp_def world0_def fresh_row_def)
  have p: "\<not> verified fresh_row" "13 \<le> otp_expires_at fresh_row"
    "\<not> verified (fresh_row\<lparr>attempts := 3\<rparr>)"
    "13 \<le> otp_expires_at (fresh_row\<lparr>attempts := 3\<rparr>)"
    by (simp_all add: fresh_row_def)
  have q: "attempts (fresh_row\<lparr>attempts := 3\<rparr>) \<ge> 3"
    "attempts fresh_row = 0 \<and> (10::int) \<le> 11 \<and> (11::int) \<le> 12 \<and> (12::int) \<le> 13
        \<and> \<not> pwd_verify ''000000'' (otp_code fresh_row)
        \<and> \<not> pwd_verify ''111111'' (otp_code fresh_row)
        \<and> \<not> pwd_verify ''222222'' (otp_code fresh_row)"
    by (simp_all add: fresh_row_def)
  from verify_otp_attempts_exhausted [OF h(1) h(2) r(2) p(3) p(4), of "''123456''"] q(1)
  have a: "verify_otp ''4711'' ''123456'' 13 (world_with_otp (fresh_row\<lparr>attempts := 3\<rparr>))
     = (Inl AttemptsExhausted, world_with_otp (fresh_row\<lparr>attempts := 3\<rparr>))"
    by simp
  from verify_otp_attempts_exhausted [OF h(1) h(2) r(1) p(1) p(2),
      where ?t1.0 = 10 and ?t2.0 = 11 and ?t3.0 = 12 and ?c1.0 = "''000000''"
        and ?c2.0 = "''111111''" and ?c3.0 = "''222222''" and otp = "''123456''"] q(2)
  have b: "(let (r1, w1) = verify_otp ''4711'' ''000000'' 10 (world_with_otp fresh_row);
           (r2, w2) = verify_otp ''4711'' ''111111'' 11 w1;
           (r3, w3) = verify_otp ''4711'' ''222222'' 12 w2;
           (r4, w4) = verify_otp ''4711'' ''123456'' 13 w3
       in r1 = Inl (InvalidCode 2) \<and> r2 = Inl (InvalidCode 1) \<and> r3 = Inl (InvalidCode 0)
          \<and> r4 = Inl AttemptsExhausted)"
    by simp
  from a b show ?thesis by (intro conjI)
qed

section \<open>The vendor shell created for an email identifier\<close>














section \<open>Session validation denies by default\<close>

lemma clean_select_sessions [intro!, simp]: "clean (select_sessions p)"
  unfolding select_sessions_def by (rule clean_store_call) auto

lemma clean_update_sessions [intro!, simp]: "clean (update_sessions p f)"
  unfolding update_sessions_def by (rule clean_store_call) auto

lemma clean_delete_sessions [intro!, simp]: "clean (delete_sessions p)"
  unfolding delete_sessions_def by (rule clean_store_call) auto

lemma clean_settings [intro!, simp]: "clean settings_JWT_SECRET"
  by (auto simp add: clean_def settings_JWT_SECRET_def)

lemma clean_jwt_decode [intro!, simp]: "clean (jwt_decode tok secret now)"
  by (simp add: jwt_decode_def split: token.splits)

lemma validate_session_fail_closed:
  assumes "True \<in> set (consumed w (snd (validate_session tok now w)))"
  shows "fst (validate_session tok now w) = Inr None"
  using assms unfolding validate_session_def Let_def
  apply -
  apply (erule try_except_fail_open [rotated])
  apply (auto split: option.splits cval.splits list.splits)
  done

lemma validate_session_not_minted:
  assumes "session_cache_minted w"
    and "\<not> (signature_verifies (jwt_secret w) tok \<and> typ_is_access tok)"
  shows "fst (validate_session tok now w) = Inr None"
proof -
  from assms have miss: "cache w (VendorSessionKey tok) = None"
    unfolding session_cache_minted_def by (cases "cache w (VendorSessionKey tok)") auto
  then have l: "lookup (cache w) (VendorSessionKey tok) now = None"
    by (simp add: lookup_def)
  from assms(2) l show ?thesis
    unfolding validate_session_def Let_def
    by (cases "faults w")
      (auto simp add: try_except_def io_bind_def io_return_def io_raise_def redis_get_def
        store_call_def settings_JWT_SECRET_def jwt_decode_def signature_verifies_def
        typ_is_access_def split: token.splits)
qed

lemma world_after_login_minted: "session_cache_minted world_after_login"
  unfolding session_cache_minted_def
  by (auto simp add: world_after_login_def world0_def first_access_token_def
      signature_verifies_def typ_is_access_def split: if_splits)

text \<open>
  C6. \<^verbatim>\<open>validate_session\<close> never passes an exception to its caller, whatever the world
  and whichever store calls raise; it returns \<open>None\<close> whenever a cache or datastore call
  made during the validation raised; and it returns \<open>None\<close> for a token whose signature
  does not verify under the server's secret or whose type is not \<open>access\<close>. The last
  part holds in every world in which the session keys of the cache belong to access tokens
  that the server signed; the lemma \<open>reachable_session_cache_minted\<close> shows that these
  are all the worlds that the operations produce from an empty cache.
\<close>

theorem validate_session_default_deny:
  "(\<forall>x. fst (validate_session tok now w) \<noteq> Inl x)
   \<and> (True \<in> set (consumed w (snd (validate_session tok now w)))
        \<longrightarrow> fst (validate_session tok now w) = Inr None)
   \<and> (session_cache_minted w
        \<and> (\<not> signature_verifies (jwt_secret w) tok \<or> \<not> typ_is_access tok)
        \<longrightarrow> fst (validate_session tok now w) = Inr None)"
proof (intro conjI allI impI)
  fix x show "fst (validate_session tok now w) \<noteq> Inl x"
    unfolding validate_session_def by (rule try_except_default_total)
next
  assume "True \<in> set (consumed w (snd (validate_session tok now w)))"
  then show "fst (validate_session tok now w) = Inr None"
    by (rule validate_session_fail_closed)
next
  assume "session_cache_minted w
        \<and> (\<not> signature_verifies (jwt_secret w) tok \<or> \<not> typ_is_access tok)"
  then show "fst (validate_session tok now w) = Inr None"
    by (intro validate_session_not_minted) auto
qed

theorem validate_session_default_deny_witness:
  "fst (validate_session (Unsigned ''invalid-token'') 20 world_after_login) = Inr None
   \<and> fst (validate_session first_refresh_token 20 world_after_login) = Inr None
   \<and> fst (validate_session first_access_token 20 (world_after_login\<lparr>faults := [True]\<rparr>))
       = Inr None"
proof -
  have m: "session_cache_minted world_after_login" by (rule world_after_login_minted)
  have s: "\<not> signature_verifies (jwt_secret world_after_login) (Unsigned ''invalid-token'')"
    by (simp add: signature_verifies_def)
  have t: "\<not> typ_is_access first_refresh_token"
    by (simp add: typ_is_access_def first_refresh_token_def)
  have c: "True \<in> set (consumed (world_after_login\<lparr>faults := [True]\<rparr>)
      (snd (validate_session first_access_token 20 (world_after_login\<lparr>faults := [True]\<rparr>))))"
    by (simp add: validate_session_def Let_def try_except_def io_bind_def redis_get_def
        store_call_def io_return_def consumed_def)
  have a1: "fst (validate_session (Unsigned ''invalid-token'') 20 world_after_login) = Inr None"
    using validate_session_default_deny [of "Unsigned ''invalid-token''" 20 world_after_login] m s
    by simp
  have a2: "fst (validate_session first_refresh_token 20 world_after_login) = Inr None"
    using validate_session_default_deny [of first_refresh_token 20 world_after_login] m t
    by simp
  have a3: "fst (validate_session first_access_token 20 (world_after_login\<lparr>faults := [True]\<rparr>))
       = Inr None"
    using validate_session_default_deny [of first_access_token 20
        "world_after_login\<lparr>faults := [True]\<rparr>"] c
    by simp
  from a1 a2 a3 show ?thesis by (intro conjI)
qed

section \<open>Expired access tokens and expired sessions\<close>

lemma refresh_run:
  "refresh_token_op first_refresh_token 2592000 world_after_login =
     (Inr \<lparr>new_access_token = second_access_token, token_type = ''bearer'', expires_in = 3600\<rparr>,
      world_refreshed)"
  unfolding refresh_token_op_def Let_def
  by (intro try_except_Inr)
    (simp add: world_after_login_def world0_def world_refreshed_def first_refresh_token_def
      second_access_token_def first_access_token_def jwt_decode_def generate_jwt_tokens_def
      io_return_def)

lemma validate_session_cached:
  "validate_session first_access_token 7200 world_after_login
     = (Inr (Some (1, 2592010)), world_after_login)"
  unfolding validate_session_def Let_def
  by (intro try_except_Inr)
    (simp add: world_after_login_def world0_def lookup_def alive_def io_return_def)

lemma validate_session_expired_token:
  assumes "faults w = []"
    and "lookup (cache w) (VendorSessionKey tok) now = None
         \<or> (\<exists>vid ex. lookup (cache w) (VendorSessionKey tok) now = Some (SessionData vid ex)
                    \<and> ex < now)"
    and "tok = fst (generate_jwt_tokens (jwt_secret w) vid t0)" and "t0 + 3600 < now"
  shows "validate_session tok now w = (Inr None, w)"
  using assms unfolding validate_session_def Let_def
  by (auto simp add: try_except_def jwt_decode_def generate_jwt_tokens_def io_return_def
      io_raise_def)

lemma validate_session_expired_row:
  assumes "faults w = []"
    and "lookup (cache w) (VendorSessionKey tok) now = None
         \<or> (\<exists>vid ex. lookup (cache w) (VendorSessionKey tok) now = Some (SessionData vid ex)
                    \<and> ex < now)"
    and "tok = fst (generate_jwt_tokens (jwt_secret w) vid t0)" and "now \<le> t0 + 3600"
    and "filter (\<lambda>s. session_token s = tok) (vendor_sessions w) = srow # rest"
    and "session_expires_at srow < now"
  shows "validate_session tok now w =
     (Inr None, w\<lparr>vendor_sessions := filter (\<lambda>s. session_id s \<noteq> session_id srow)
                                        (vendor_sessions w),
                   cache := (cache w)(VendorSessionKey tok := None)\<rparr>)"
  using assms unfolding validate_session_def Let_def
  by (auto simp add: try_except_def jwt_decode_def generate_jwt_tokens_def io_return_def
      io_raise_def)

text \<open>
  C7 as stated fails. The access token of the first login was issued at time 10 with a
  lifetime of 3600 seconds. Two hours later \<^verbatim>\<open>validate_session\<close> still answers from the
  cache entry (TTL 24 hours) and reports the session; twenty-five hours later it reports
  \<open>None\<close> but leaves the session row in the datastore.
\<close>

theorem validate_session_stale_counterexample:
  "validate_session first_access_token 7200 world_after_login
     = (Inr (Some (1, 2592010)), world_after_login)
   \<and> validate_session first_access_token 90000 world_after_login
     = (Inr None, world_after_login)
   \<and> map session_token (vendor_sessions world_after_login) = [first_access_token]
   \<and> first_access_token = fst (generate_jwt_tokens ''server-secret'' 1 10)"
proof -
  have f: "faults world_after_login = []"
    and l: "lookup (cache world_after_login) (VendorSessionKey first_access_token) 90000 = None
         \<or> (\<exists>vid ex. lookup (cache world_after_login) (VendorSessionKey first_access_token) 90000
                       = Some (SessionData vid ex) \<and> ex < 90000)"
    and t: "first_access_token = fst (generate_jwt_tokens (jwt_secret world_after_login) 1 10)"
    by (simp_all add: world_after_login_def world0_def lookup_def alive_def
        first_access_token_def generate_jwt_tokens_def)
  have e: "(10::int) + 3600 < 90000" by simp
  have s: "map session_token (vendor_sessions world_after_login) = [first_access_token]"
    by (simp add: world_after_login_def world0_def)
  have g: "first_access_token = fst (generate_jwt_tokens ''server-secret'' 1 10)"
    by (simp add: first_access_token_def generate_jwt_tokens_def)
  from validate_session_cached validate_session_expired_token [OF f l t e] s g
  show ?thesis by (intro conjI)
qed

text \<open>
  C7, amended. Let an access token minted at \<open>t0\<close> be presented while no store call
  raises and the cache holds no entry for it that is alive and unexpired. If more than
  its lifetime of 3600 seconds has passed, \<^verbatim>\<open>validate_session\<close> returns \<open>None\<close> and
  changes neither store. If the token is still within its lifetime but the session row
  found for it is past its own \<open>expires_at\<close>, \<^verbatim>\<open>validate_session\<close> returns \<open>None\<close>,
  deletes that row from the datastore and deletes the token's cache entry.
\<close>

theorem validate_session_expiry_cleanup:
  assumes "faults w = []"
    and "lookup (cache w) (VendorSessionKey tok) now = None
         \<or> (\<exists>vid ex. lookup (cache w) (VendorSessionKey tok) now = Some (SessionData vid ex)
                    \<and> ex < now)"
    and "tok = fst (generate_jwt_tokens (jwt_secret w) vid t0)"
  shows "(t0 + 3600 < now \<longrightarrow> validate_session tok now w = (Inr None, w))
   \<and> (now \<le> t0 + 3600
        \<and> filter (\<lambda>s. session_token s = tok) (vendor_sessions w) = srow # rest
        \<and> session_expires_at srow < now \<longrightarrow>
       validate_session tok now w =
         (Inr None, w\<lparr>vendor_sessions := filter (\<lambda>s. session_id s \<noteq> session_id srow)
                                            (vendor_sessions w),
                       cache := (cache w)(VendorSessionKey tok := None)\<rparr>))"
proof (intro conjI impI)
  assume "t0 + 3600 < now"
  then show "validate_session tok now w = (Inr None, w)"
    by (rule validate_session_expired_token [OF assms])
next
  assume a: "now \<le> t0 + 3600
        \<and> filter (\<lambda>s. session_token s = tok) (vendor_sessions w) = srow # rest
        \<and> session_expires_at srow < now"
  then have b: "now \<le> t0 + 3600"
    "filter (\<lambda>s. session_token s = tok) (vendor_sessions w) = srow # rest"
    "session_expires_at srow < now"
    by simp_all
  show "validate_session tok now w =
         (Inr None, w\<lparr>vendor_sessions := filter (\<lambda>s. session_id s \<noteq> session_id srow)
                                            (vendor_sessions w),
                       cache := (cache w)(VendorSessionKey tok := None)\<rparr>)"
    by (rule validate_session_expired_row [OF assms b])
qed

theorem validate_session_expiry_cleanup_witness:
  "validate_session first_access_token 90000 world_after_login = (Inr None, world_after_login)
   \<and> validate_session second_access_token 2592100 world_refreshed =
       (Inr None, world_refreshed\<lparr>vendor_sessions := [],
          cache := (cache world_refreshed)(VendorSessionKey second_access_token := None)\<rparr>)"
proof -
  have f: "faults world_after_login = []"
    and l: "lookup (cache world_after_login) (VendorSessionKey first_access_token) 90000 = None
         \<or> (\<exists>vid ex. lookup (cache world_after_login) (VendorSessionKey first_access_token) 90000
                       = Some (SessionData vid ex) \<and> ex < 90000)"
    and t: "first_access_token = fst (generate_jwt_tokens (jwt_secret world_after_login) 1 10)"
    by (simp_all add: world_after_login_def world0_def lookup_def alive_def
        first_access_token_def generate_jwt_tokens_def)
  have a: "validate_session first_access_token 90000 world_after_login
      = (Inr None, world_after_login)"
    using validate_session_expiry_cleanup [OF f l t] by simp
  let ?row = "\<lparr>session_id = 1, session_vendor = 1, session_token = second_access_token,
               refresh_token_of = first_refresh_token, session_expires_at = 2592010,
               last_used = Some 2592000\<rparr>"
  have f2: "faults world_refreshed = []"
    and l2: "lookup (cache world_refreshed) (VendorSessionKey second_access_token) 2592100 = None
         \<or> (\<exists>vid ex. lookup (cache world_refreshed) (VendorSessionKey second_access_token) 2592100
                       = Some (SessionData vid ex) \<and> ex < 2592100)"
    and t2: "second_access_token
        = fst (generate_jwt_tokens (jwt_secret world_refreshed) 1 2592000)"
    and r2: "filter (\<lambda>s. session_token s = second_access_token) (vendor_sessions world_refreshed)
        = ?row # []"
    by (simp_all add: world_refreshed_def world_after_login_def world0_def lookup_def alive_def
        second_access_token_def first_access_token_def generate_jwt_tokens_def)
  have v: "vendor_sessions world_refreshed = [?row]"
    by (simp add: world_refreshed_def)
  have b: "validate_session second_access_token 2592100 world_refreshed =
       (Inr None, world_refreshed\<lparr>vendor_sessions := [],
          cache := (cache world_refreshed)(VendorSessionKey second_access_token := None)\<rparr>)"
    using validate_session_expiry_cleanup [OF f2 l2 t2, where srow = ?row and rest = "[]"] r2
    by (simp add: v)
  from a b show ?thesis by (intro conjI)
qed

section \<open>The route handlers and the Brute-Force Guard\<close>



section \<open>The session cache holds server-minted access tokens only\<close>

lemma keeps_return [intro!, simp]: "keeps I (io_return a)"
  by (simp add: keeps_def io_return_def)

lemma keeps_raise [intro!, simp]: "keeps I (io_raise e)"
  by (simp add: keeps_def io_raise_def)

lemma keeps_bind [intro!]:
  assumes "keeps I m" and "\<And>a. keeps I (f a)"
  shows "keeps I (io_bind m f)"
  unfolding keeps_def
proof (intro allI impI)
  fix w r w'' assume a: "I w \<and> io_bind m f w = (r, w'')"
  obtain r1 w1 where m: "m w = (r1, w1)" by (cases "m w")
  with a assms(1) have i1: "I w1" unfolding keeps_def by blast
  show "I w''"
  proof (cases r1)
    case (Inl e)
    with a m i1 show ?thesis by (simp add: io_bind_def)
  next
    case (Inr x)
    with a m have "f x w1 = (r, w'')" by (simp add: io_bind_def)
    with assms(2) [of x] i1 show ?thesis unfolding keeps_def by blast
  qed
qed

lemma keeps_try [intro!]:
  assumes "keeps I m" and "\<And>e. keeps I (h e)"
  shows "keeps I (try_except m h)"
  unfolding keeps_def
proof (intro allI impI)
  fix w r w'' assume a: "I w \<and> try_except m h w = (r, w'')"
  obtain r1 w1 where m: "m w = (r1, w1)" by (cases "m w")
  with a assms(1) have i1: "I w1" unfolding keeps_def by blast
  show "I w''"
  proof (cases r1)
    case (Inr x)
    with a m i1 show ?thesis by (simp add: try_except_def)
  next
    case (Inl e)
    with a m have "h e w1 = (r, w'')" by (simp add: try_except_def)
    with assms(2) [of e] i1 show ?thesis unfolding keeps_def by blast
  qed
qed

lemma keeps_if [intro!]: "(c \<Longrightarrow> keeps I a) \<Longrightarrow> (\<not> c \<Longrightarrow> keeps I b) \<Longrightarrow> keeps I (if c then a else b)"
  by simp

lemma keeps_store_call:
  assumes "\<And>w fs. I (w\<lparr>faults := fs\<rparr>) = I w"
    and "\<And>w r w'. I w \<Longrightarrow> f w = (r, w') \<Longrightarrow> I w'"
  shows "keeps I (store_call f)"
  unfolding keeps_def
proof (intro allI impI)
  fix w r w' assume a: "I w \<and> store_call f w = (r, w')"
  show "I w'"
  proof (cases "faults w")
    case Nil
    with a assms(2) [of w r w'] show ?thesis by (simp add: store_call_def)
  next
    case (Cons b bs)
    from a assms(1) [where w = w and fs = bs] have i: "I (w\<lparr>faults := bs\<rparr>)" by simp
    show ?thesis
    proof (cases b)
      case True
      with a Cons i show ?thesis by (auto simp add: store_call_def)
    next
      case False
      with a Cons have "f (w\<lparr>faults := bs\<rparr>) = (r, w')" by (simp add: store_call_def)
      with i show ?thesis by (rule assms(2))
    qed
  qed
qed

lemma minted_under_frame:
  "cache w' = cache w \<Longrightarrow> jwt_secret w' = jwt_secret w \<Longrightarrow>
   minted_under s w' = minted_under s w"
  by (simp add: minted_under_def session_cache_minted_def)

lemma keeps_store_call_frame:
  assumes "\<And>w r w'. f w = (r, w') \<Longrightarrow> cache w' = cache w \<and> jwt_secret w' = jwt_secret w"
  shows "keeps (minted_under s) (store_call f)"
proof (rule keeps_store_call)
  fix w fs show "minted_under s (w\<lparr>faults := fs\<rparr>) = minted_under s w"
    by (rule minted_under_frame) simp_all
next
  fix w r w' assume "minted_under s w" and "f w = (r, w')"
  with assms [of w r w'] minted_under_frame [of w' w s] show "minted_under s w'" by simp
qed

lemma minted_under_faults [simp]: "minted_under s (w\<lparr>faults := fs\<rparr>) = minted_under s w"
  by (simp add: minted_under_def session_cache_minted_def)

lemma minted_under_entropy [simp]: "minted_under s (w\<lparr>entropy := es\<rparr>) = minted_under s w"
  by (simp add: minted_under_def session_cache_minted_def)

lemma minted_under_otp [simp]:
  "minted_under s (w\<lparr>otp_verifications := xs\<rparr>) = minted_under s w"
  by (simp add: minted_under_def session_cache_minted_def)

lemma minted_under_vendors [simp]: "minted_under s (w\<lparr>vendors := xs\<rparr>) = minted_under s w"
  by (simp add: minted_under_def session_cache_minted_def)

lemma minted_under_sessions [simp]:
  "minted_under s (w\<lparr>vendor_sessions := xs\<rparr>) = minted_under s w"
  by (simp add: minted_under_def session_cache_minted_def)

lemma minted_under_delete [simp]:
  "minted_under s w \<Longrightarrow> minted_under s (w\<lparr>cache := (cache w)(k := None)\<rparr>)"
  unfolding minted_under_def session_cache_minted_def by auto

lemma minted_under_other_key [simp]:
  "minted_under s w \<Longrightarrow> \<not> is_session_key k \<Longrightarrow>
   minted_under s (w\<lparr>cache := (cache w)(k \<mapsto> e)\<rparr>)"
  unfolding minted_under_def session_cache_minted_def is_session_key_def by auto

lemma minted_under_session_key [simp]:
  "minted_under s w \<Longrightarrow> signature_verifies s tok \<Longrightarrow> typ_is_access tok \<Longrightarrow>
   minted_under s (w\<lparr>cache := (cache w)(VendorSessionKey tok \<mapsto> e)\<rparr>)"
  unfolding minted_under_def session_cache_minted_def by auto

lemma keeps_get_redis [intro!, simp]: "keeps I get_redis"
  by (auto simp add: keeps_def get_redis_def split: if_splits)

lemma keeps_redis_get [intro!, simp]: "keeps (minted_under s) (redis_get k now)"
  unfolding redis_get_def by (rule keeps_store_call_frame) auto

lemma keeps_redis_delete [intro!, simp]: "keeps (minted_under s) (redis_delete k)"
  unfolding redis_delete_def
proof (rule keeps_store_call)
  fix w r w' assume "minted_under s w" and "(Inr (), w\<lparr>cache := (cache w)(k := None)\<rparr>) = (r, w')"
  then show "minted_under s w'" by auto
qed simp

lemma keeps_redis_setex_other [simp]:
  assumes "\<not> is_session_key k"
  shows "keeps (minted_under s) (redis_setex k ttl v now)"
  unfolding redis_setex_def
proof (rule keeps_store_call)
  fix w r w' assume "minted_under s w"
    and "(Inr (), w\<lparr>cache := (cache w)(k \<mapsto> (v, Some (of_int now + ttl)))\<rparr>) = (r, w')"
  with assms show "minted_under s w'" by auto
qed simp

lemma keeps_redis_setex_session:
  assumes "signature_verifies s tok" and "typ_is_access tok"
  shows "keeps (minted_under s) (redis_setex (VendorSessionKey tok) ttl v now)"
  unfolding redis_setex_def
proof (rule keeps_store_call)
  fix w r w' assume "minted_under s w"
    and "(Inr (), w\<lparr>cache := (cache w)(VendorSessionKey tok \<mapsto> (v, Some (of_int now + ttl)))\<rparr>)
          = (r, w')"
  with assms show "minted_under s w'" by auto
qed simp

lemma keeps_py_int [intro!, simp]: "keeps I (py_int v)"
  by (simp add: py_int_def split: cval.splits)

lemma keeps_int_or_zero [intro!, simp]: "keeps I (int_or_zero x)"
  by (simp add: int_or_zero_def split: option.splits)

lemma keeps_select_otp [intro!, simp]: "keeps (minted_under s) (select_otp p)"
  unfolding select_otp_def by (rule keeps_store_call_frame) (auto simp add: Let_def)

lemma keeps_update_otp [intro!, simp]: "keeps (minted_under s) (update_otp p g)"
  unfolding update_otp_def by (rule keeps_store_call_frame) (auto simp add: Let_def)

lemma keeps_insert_otp [intro!, simp]: "keeps (minted_under s) (insert_otp r)"
  unfolding insert_otp_def by (rule keeps_store_call_frame) (auto simp add: Let_def)

lemma keeps_select_vendors [intro!, simp]: "keeps (minted_under s) (select_vendors p)"
  unfolding select_vendors_def by (rule keeps_store_call_frame) (auto simp add: Let_def)

lemma keeps_update_vendors [intro!, simp]: "keeps (minted_under s) (update_vendors p g)"
  unfolding update_vendors_def by (rule keeps_store_call_frame) (auto simp add: Let_def)

lemma keeps_insert_vendor [intro!, simp]: "keeps (minted_under s) (insert_vendor r)"
  unfolding insert_vendor_def by (rule keeps_store_call_frame) (auto simp add: Let_def)

lemma keeps_select_sessions [intro!, simp]: "keeps (minted_under s) (select_sessions p)"
  unfolding select_sessions_def by (rule keeps_store_call_frame) (auto simp add: Let_def)

lemma keeps_update_sessions [intro!, simp]: "keeps (minted_under s) (update_sessions p g)"
  unfolding update_sessions_def by (rule keeps_store_call_frame) (auto simp add: Let_def)

lemma keeps_delete_sessions [intro!, simp]: "keeps (minted_under s) (delete_sessions p)"
  unfolding delete_sessions_def by (rule keeps_store_call_frame) (auto simp add: Let_def)

lemma keeps_insert_session [intro!, simp]: "keeps (minted_under s) (insert_session r)"
  unfolding insert_session_def by (rule keeps_store_call_frame) (auto simp add: Let_def)

lemma keeps_randbelow [intro!, simp]: "keeps (minted_under s) (randbelow n)"
  by (auto simp add: keeps_def randbelow_def split: list.splits)

lemma keeps_token_urlsafe [intro!, simp]: "keeps (minted_under s) token_urlsafe"
  by (auto simp add: keeps_def token_urlsafe_def split: list.splits)

lemma keeps_jwt_decode [intro!, simp]: "keeps I (jwt_decode tok secret now)"
  by (simp add: jwt_decode_def split: token.splits)

lemma keeps_settings:
  assumes "keeps (minted_under s) (f s)"
  shows "keeps (minted_under s) (io_bind settings_JWT_SECRET f)"
  unfolding keeps_def
proof (intro allI impI)
  fix w r w' assume a: "minted_under s w \<and> io_bind settings_JWT_SECRET f w = (r, w')"
  then have "jwt_secret w = s" by (simp add: minted_under_def)
  with a have "f s w = (r, w')" by (simp add: io_bind_def settings_JWT_SECRET_def)
  with a assms show "minted_under s w'" unfolding keeps_def by blast
qed

lemma access_token_minted:
  "signature_verifies s (fst (generate_jwt_tokens s vid now))"
  "typ_is_access (fst (generate_jwt_tokens s vid now))"
  by (simp_all add: generate_jwt_tokens_def signature_verifies_def typ_is_access_def)

lemma keeps_redis_incr_other [simp]:
  assumes "\<not> is_session_key k"
  shows "keeps (minted_under s) (redis_incr k now)"
  unfolding redis_incr_def
proof (rule keeps_store_call)
  fix w r w' assume m: "minted_under s w"
    and e: "(case cache w k of
         None \<Rightarrow> (Inr 1, w\<lparr>cache := (cache w)(k \<mapsto> (Num 1, None))\<rparr>)
       | Some e \<Rightarrow>
           if \<not> alive now e then (Inr 1, w\<lparr>cache := (cache w)(k \<mapsto> (Num 1, None))\<rparr>)
           else (case fst e of
                   Num n \<Rightarrow> (Inr (n + 1), w\<lparr>cache := (cache w)(k \<mapsto> (Num (n + 1), snd e))\<rparr>)
                 | SessionData v x \<Rightarrow> (Inl StoreError, w))) = (r, w')"
  from e m assms show "minted_under s w'"
    by (auto split: option.splits if_splits cval.splits)
qed simp

lemma keeps_redis_expire_other [simp]:
  assumes "\<not> is_session_key k"
  shows "keeps (minted_under s) (redis_expire k ttl now)"
  unfolding redis_expire_def
proof (rule keeps_store_call)
  fix w r w' assume m: "minted_under s w"
    and e: "(case cache w k of
         None \<Rightarrow> (Inr (), w)
       | Some e \<Rightarrow>
           if alive now e
           then (Inr (), w\<lparr>cache := (cache w)(k \<mapsto> (fst e, Some (of_int now + ttl)))\<rparr>)
           else (Inr (), w)) = (r, w')"
  from e m assms show "minted_under s w'"
    by (auto split: option.splits if_splits)
qed simp

lemma other_keys [simp]:
  "\<not> is_session_key (OtpTokenKey t)" "\<not> is_session_key (RateMinuteKey i n)"
  "\<not> is_session_key (RateHourKey i n)" "\<not> is_session_key (FailedAttemptsKey e i)"
  "\<not> is_session_key (LockoutKey e i)"
  by (simp_all add: is_session_key_def)

lemma keeps_create_vendor_session:
  assumes "signature_verifies s access" and "typ_is_access access"
  shows "keeps (minted_under s) (create_vendor_session vid access refresh now)"
  unfolding create_vendor_session_def Let_def
  apply (rule keeps_try)
   apply (rule keeps_bind)
    apply simp
   apply (simp split: list.splits)
   apply (intro allI impI conjI keeps_redis_setex_session assms)
  apply simp
  done

lemma keeps_get_or_create_vendor [simp]:
  "keeps (minted_under s) (get_or_create_vendor ident now)"
  unfolding get_or_create_vendor_def Let_def
  apply (rule keeps_try)
   apply (rule keeps_bind)
    apply simp
   apply (simp split: list.splits)
   apply (intro allI impI conjI keeps_bind keeps_if)
       apply (simp_all split: list.splits)
  done

lemma keeps_verify_otp [simp]: "keeps (minted_under s) (verify_otp tok otp now)"
  unfolding verify_otp_def Let_def
  apply (rule keeps_try)
   apply (rule keeps_bind)
    apply simp
   apply (simp split: option.splits)
   apply (intro allI impI keeps_bind)
    apply simp
   apply (simp split: list.splits)
   apply (intro allI impI conjI keeps_if keeps_raise)
    apply (rule keeps_bind, simp, simp)
   apply (rule keeps_bind, simp)
   apply (rule keeps_bind, simp)
   apply (rule keeps_settings)
   apply (simp split: prod.splits)
   apply (intro allI impI)
   apply (rule keeps_bind)
    apply (rule keeps_create_vendor_session)
     apply (metis access_token_minted(1) fst_conv)
    apply (metis access_token_minted(2) fst_conv)
   apply (rule keeps_bind, simp, simp)
  apply simp
  done

lemma keeps_validate_session [simp]: "keeps (minted_under s) (validate_session access now)"
  unfolding validate_session_def Let_def
  apply (rule keeps_try)
   apply (rule keeps_bind, simp)
   apply (rule keeps_bind)
    apply (simp split: option.splits cval.splits)
   apply (simp split: option.splits)
   apply (intro allI impI conjI)
   apply (rule keeps_settings)
   apply (rule keeps_bind, simp)
   apply (rule keeps_if, simp)
   apply (rule keeps_bind, simp)
   apply (simp split: list.splits)
   apply (intro allI impI conjI keeps_if keeps_bind)
        apply simp_all
  done

lemma keeps_refresh_token [simp]: "keeps (minted_under s) (refresh_token_op refresh now)"
  unfolding refresh_token_op_def Let_def
  apply (rule keeps_try)
   apply (rule keeps_settings)
   apply (rule keeps_bind, simp)
   apply (rule keeps_if, simp)
   apply (rule keeps_bind, simp)
   apply (simp split: list.splits)
   apply (intro allI impI conjI keeps_if)
    apply (rule keeps_bind, simp, simp)
   apply (rule keeps_bind, simp)
   apply (rule keeps_bind)
    apply (rule keeps_redis_setex_session)
     apply (rule access_token_minted)
    apply (rule access_token_minted)
   apply simp
  apply simp
  done

lemma keeps_logout [simp]: "keeps (minted_under s) (logout access)"
  unfolding logout_def
  by (intro keeps_try keeps_bind) simp_all

lemma keeps_store_otp [simp]: "keeps (minted_under s) (store_otp ident otp now)"
  unfolding store_otp_def Let_def
  apply (rule keeps_try)
   apply (rule keeps_bind, simp)
   apply (rule keeps_bind, simp)
   apply (rule keeps_bind, simp)
   apply (simp split: list.splits)
   apply (intro allI impI conjI keeps_bind)
    apply simp_all
  done

lemma keeps_record_failed_attempt [simp]:
  "keeps (minted_under s) (record_failed_attempt identifier endpoint now)"
  unfolding record_failed_attempt_def Let_def
  by (intro keeps_try keeps_bind keeps_if) simp_all

lemma keeps_is_locked_out [simp]:
  "keeps (minted_under s) (is_locked_out identifier endpoint now)"
  unfolding is_locked_out_def Let_def
  apply (rule keeps_try)
   apply (rule keeps_bind, simp)
   apply (rule keeps_bind, simp)
   apply (simp split: option.splits)
   apply (intro allI impI conjI keeps_bind keeps_if)
       apply simp_all
  done

lemma keeps_clear_failed_attempts [simp]:
  "keeps (minted_under s) (clear_failed_attempts identifier endpoint)"
  unfolding clear_failed_attempts_def
  by (intro keeps_try keeps_bind) simp_all

lemma keeps_check_rate_limit [simp]:
  "keeps (minted_under s) (check_rate_limit self identifier endpoint now)"
  unfolding check_rate_limit_def Let_def
  apply (rule keeps_try)
   apply (rule keeps_bind, simp)
   apply (simp split: prod.splits)
   apply (intro allI impI conjI keeps_bind keeps_if)
         apply simp_all
  done

lemma keeps_increment_counters [simp]:
  "keeps (minted_under s) (increment_counters identifier now)"
  unfolding increment_counters_def Let_def
  by (intro keeps_try keeps_bind) simp_all

text \<open>
  Every world that the operations produce from an empty cache has a session cache of
  server-minted access tokens, whichever store calls fail on the way.
\<close>

lemma keeps_step: "keeps I m \<Longrightarrow> I w \<Longrightarrow> I (snd (m w))"
  unfolding keeps_def by (cases "m w") auto

lemma minted_under_secret: "minted_under s w \<Longrightarrow> jwt_secret w = s"
  by (simp add: minted_under_def)

lemma reachable_minted_under: "reachable w \<Longrightarrow> minted_under (jwt_secret w) w"
proof (induction rule: reachable.induct)
  case (start w)
  then show ?case by (simp add: minted_under_def session_cache_minted_def)
next
  case (environment w b fs es)
  then show ?case by (simp add: minted_under_def session_cache_minted_def)
next
  case (by_store_otp w ident otp now)
  from keeps_step [OF keeps_store_otp by_store_otp.IH]
  have "minted_under (jwt_secret w) (snd (store_otp ident otp now w))" .
  with minted_under_secret [OF this] show ?case by simp
next
  case (by_verify_otp w tok otp now)
  from keeps_step [OF keeps_verify_otp by_verify_otp.IH]
  have "minted_under (jwt_secret w) (snd (verify_otp tok otp now w))" .
  with minted_under_secret [OF this] show ?case by simp
next
  case (by_validate_session w access now)
  from keeps_step [OF keeps_validate_session by_validate_session.IH]
  have "minted_under (jwt_secret w) (snd (validate_session access now w))" .
  with minted_under_secret [OF this] show ?case by simp
next
  case (by_refresh_token w refresh now)
  from keeps_step [OF keeps_refresh_token by_refresh_token.IH]
  have "minted_under (jwt_secret w) (snd (refresh_token_op refresh now w))" .
  with minted_under_secret [OF this] show ?case by simp
next
  case (by_logout w access)
  from keeps_step [OF keeps_logout by_logout.IH]
  have "minted_under (jwt_secret w) (snd (logout access w))" .
  with minted_under_secret [OF this] show ?case by simp
next
  case (by_record_failed_attempt w idn endpoint now)
  from keeps_step [OF keeps_record_failed_attempt by_record_failed_attempt.IH]
  have "minted_under (jwt_secret w) (snd (record_failed_attempt idn endpoint now w))" .
  with minted_under_secret [OF this] show ?case by simp
next
  case (by_is_locked_out w idn endpoint now)
  from keeps_step [OF keeps_is_locked_out by_is_locked_out.IH]
  have "minted_under (jwt_secret w) (snd (is_locked_out idn endpoint now w))" .
  with minted_under_secret [OF this] show ?case by simp
next
  case (by_clear_failed_attempts w idn endpoint)
  from keeps_step [OF keeps_clear_failed_attempts by_clear_failed_attempts.IH]
  have "minted_under (jwt_secret w) (snd (clear_failed_attempts idn endpoint w))" .
  with minted_under_secret [OF this] show ?case by simp
next
  case (by_check_rate_limit w self idn endpoint now)
  from keeps_step [OF keeps_check_rate_limit by_check_rate_limit.IH]
  have "minted_under (jwt_secret w) (snd (check_rate_limit self idn endpoint now w))" .
  with minted_under_secret [OF this] show ?case by simp
next
  case (by_increment_counters w idn now)
  from keeps_step [OF keeps_increment_counters by_increment_counters.IH]
  have "minted_under (jwt_secret w) (snd (increment_counters idn now w))" .
  with minted_under_secret [OF this] show ?case by simp
qed

lemma reachable_session_cache_minted: "reachable w \<Longrightarrow> session_cache_minted w"
  using reachable_minted_under [of w] by (simp add: minted_under_def)

lemma world_after_login_reachable: "reachable world_after_login"
proof -
  have "reachable (world0\<lparr>entropy := [4711, 7]\<rparr>)"
    by (rule reachable.start) (simp add: world0_def)
  then have "reachable (snd (store_otp ''+919876543210'' ''123456'' 0
      (world0\<lparr>entropy := [4711, 7]\<rparr>)))"
    by (rule reachable.by_store_otp)
  then have "reachable (world_with_otp fresh_row)" by (simp add: store_otp_run)
  then have "reachable (snd (verify_otp ''4711'' ''123456'' 10 (world_with_otp fresh_row)))"
    by (rule reachable.by_verify_otp)
  then show ?thesis by (simp add: first_login_run)
qed

end
